theory Spec2Isabelle
  imports Complex_Main
begin

section \<open>JavaScript numbers\<close>

text \<open>
  The geometry helpers of the front end work on JavaScript numbers. A number is a finite
  value, one of the two infinities, or NaN. Every finite double is a rational, and the
  helpers only round, compare, add, subtract and divide, so a finite value is kept as
  an exact rational: the arithmetic of the model is exact where the double arithmetic
  rounds. Negative zero is identified with zero (the helpers never divide by a rounded
  coordinate, and \<open>-0 < 0\<close> and \<open>-0 === 0\<close> behave as for zero).
\<close>

datatype number = Num rat | PosInf | NegInf | NaN

fun Number_isFinite :: "number \<Rightarrow> bool" where
  "Number_isFinite (Num r) = True"
| "Number_isFinite PosInf = False"
| "Number_isFinite NegInf = False"
| "Number_isFinite NaN = False"

text \<open>The relational operator \<open>a < b\<close>: false as soon as one side is NaN.\<close>

fun jsLess :: "number \<Rightarrow> number \<Rightarrow> bool" where
  "jsLess (Num a) (Num b) = (a < b)"
| "jsLess (Num a) PosInf = True"
| "jsLess (Num a) NegInf = False"
| "jsLess (Num a) NaN = False"
| "jsLess PosInf b = False"
| "jsLess NegInf (Num b) = True"
| "jsLess NegInf PosInf = True"
| "jsLess NegInf NegInf = False"
| "jsLess NegInf NaN = False"
| "jsLess NaN b = False"

definition jsGreater :: "number \<Rightarrow> number \<Rightarrow> bool" where
  "jsGreater a b = jsLess b a"

text \<open>\<open>a >= b\<close> and \<open>a <= b\<close>: false on NaN, otherwise the negation of the strict order.\<close>

definition jsGreaterEq :: "number \<Rightarrow> number \<Rightarrow> bool" where
  "jsGreaterEq a b = (a \<noteq> NaN \<and> b \<noteq> NaN \<and> \<not> jsLess a b)"

definition jsLessEq :: "number \<Rightarrow> number \<Rightarrow> bool" where
  "jsLessEq a b = (a \<noteq> NaN \<and> b \<noteq> NaN \<and> \<not> jsLess b a)"

text \<open>Strict equality \<open>===\<close> on numbers: NaN is different from itself.\<close>

definition jsStrictEq :: "number \<Rightarrow> number \<Rightarrow> bool" where
  "jsStrictEq a b = (a \<noteq> NaN \<and> b \<noteq> NaN \<and> a = b)"

text \<open>
  \<open>Math.round\<close>: the closest integer, a tie going towards plus infinity; the
  infinities and NaN are returned as they are.
\<close>

fun Math_round :: "number \<Rightarrow> number" where
  "Math_round (Num r) = Num (of_int \<lfloor>r + 1 / 2\<rfloor>)"
| "Math_round PosInf = PosInf"
| "Math_round NegInf = NegInf"
| "Math_round NaN = NaN"

fun jsNeg :: "number \<Rightarrow> number" where
  "jsNeg (Num r) = Num (- r)"
| "jsNeg PosInf = NegInf"
| "jsNeg NegInf = PosInf"
| "jsNeg NaN = NaN"

fun jsAdd :: "number \<Rightarrow> number \<Rightarrow> number" where
  "jsAdd (Num a) (Num b) = Num (a + b)"
| "jsAdd (Num a) PosInf = PosInf"
| "jsAdd (Num a) NegInf = NegInf"
| "jsAdd (Num a) NaN = NaN"
| "jsAdd PosInf (Num b) = PosInf"
| "jsAdd PosInf PosInf = PosInf"
| "jsAdd PosInf NegInf = NaN"
| "jsAdd PosInf NaN = NaN"
| "jsAdd NegInf (Num b) = NegInf"
| "jsAdd NegInf PosInf = NaN"
| "jsAdd NegInf NegInf = NegInf"
| "jsAdd NegInf NaN = NaN"
| "jsAdd NaN b = NaN"

definition jsSub :: "number \<Rightarrow> number \<Rightarrow> number" where
  "jsSub a b = jsAdd a (jsNeg b)"

text \<open>The sign of a number that is not NaN: -1, 0 or 1.\<close>

fun jsSign :: "number \<Rightarrow> int" where
  "jsSign (Num r) = (if r < 0 then -1 else if r = 0 then 0 else 1)"
| "jsSign PosInf = 1"
| "jsSign NegInf = -1"
| "jsSign NaN = 0"

definition signedInf :: "int \<Rightarrow> number" where
  "signedInf s = (if s < 0 then NegInf else PosInf)"


text \<open>
  Division: a finite value over zero is an infinity of its sign, zero over zero and an
  infinity over an infinity are NaN, a finite value over an infinity is zero.
\<close>

definition jsDiv :: "number \<Rightarrow> number \<Rightarrow> number" where
  "jsDiv a b =
     (case (a, b) of
        (Num x, Num y) \<Rightarrow>
          if y \<noteq> 0 then Num (x / y) else if x = 0 then NaN else signedInf (jsSign a)
      | (Num x, _) \<Rightarrow> if b = NaN then NaN else Num 0
      | (_, Num y) \<Rightarrow>
          if a = NaN then NaN else signedInf (jsSign a * (if y < 0 then -1 else 1))
      | _ \<Rightarrow> NaN)"

text \<open>\<open>Math.min\<close> and \<open>Math.max\<close> of an argument list: NaN as soon as one
  argument is NaN, plus (minus) infinity on no argument.\<close>

definition min2 :: "number \<Rightarrow> number \<Rightarrow> number" where
  "min2 a b = (if a = NaN \<or> b = NaN then NaN else if jsLess b a then b else a)"

definition max2 :: "number \<Rightarrow> number \<Rightarrow> number" where
  "max2 a b = (if a = NaN \<or> b = NaN then NaN else if jsLess a b then b else a)"

definition Math_min :: "number list \<Rightarrow> number" where
  "Math_min xs = foldl min2 PosInf xs"

definition Math_max :: "number list \<Rightarrow> number" where
  "Math_max xs = foldl max2 NegInf xs"

section \<open>Geometry helpers\<close>

text \<open>
  A point is the array \<open>[x, y]\<close> of two numbers, a polygon an array of points.
  A value that is not an array of two-element arrays of numbers is outside the type.
\<close>

type_synonym point = "number \<times> number"
type_synonym polygon = "point list"

text \<open>
  The errors the helpers throw. A message built from a template is kept as the values
  the template interpolates: \<open>TypeErrorPoint index point\<close> is the
  \<open>TypeError\<close> "Point index: expected Array of two finite numbers, got point", and
  \<open>InvalidImageSizeError w h ew eh url\<close> is the error whose message is the
  translation \<open>imageSizeError\<close> of the actual size \<open>w x h\<close>, the expected size
  \<open>ew x eh\<close> and the URL.
\<close>

datatype error =
    Error string
  | TypeError string
  | TypeErrorPoint nat point
  | InvalidPolygonError string
  | InvalidImageSizeError number number number number string

definition POLYGON_MIN_SIZE :: number where
  "POLYGON_MIN_SIZE = Num 2"

definition POLYGON_MAX_POINTS :: nat where
  "POLYGON_MAX_POINTS = 163"


definition pointsEqual :: "point \<Rightarrow> point \<Rightarrow> bool" where
  "pointsEqual p q = (jsStrictEq (fst p) (fst q) \<and> jsStrictEq (snd p) (snd q))"

definition shiftPolygon :: "polygon \<Rightarrow> point \<Rightarrow> polygon" where
  "shiftPolygon points v = map (\<lambda>p. (jsAdd (fst p) (fst v), jsAdd (snd p) (snd v))) points"

definition getSize :: "polygon \<Rightarrow> number \<times> number" where
  "getSize polygon =
     (let xCoords = map fst polygon;
          yCoords = map snd polygon;
          x = Math_min xCoords;
          y = Math_min yCoords;
          width = jsSub (Math_max xCoords) x;
          height = jsSub (Math_max yCoords) y
      in (width, height))"

text \<open>The type check of \<open>checkPolygon\<close>: the first point, in index order, that does
  not hold two finite numbers raises the \<open>TypeError\<close>.\<close>

fun checkPoints :: "nat \<Rightarrow> polygon \<Rightarrow> error option" where
  "checkPoints index [] = None"
| "checkPoints index (p # ps) =
     (if \<not> Number_isFinite (fst p) \<or> \<not> Number_isFinite (snd p)
      then Some (TypeErrorPoint index p)
      else checkPoints (Suc index) ps)"

text \<open>
  The deduplication loop of \<open>checkPolygon\<close>: \<open>j\<close> starts at 1; a point equal to
  its predecessor is spliced out and \<open>j\<close> stays, otherwise \<open>j\<close> moves on.
\<close>

function dedup :: "nat \<Rightarrow> polygon \<Rightarrow> polygon" where
  "dedup j newPolygon =
     (if j < length newPolygon
      then (if pointsEqual (newPolygon ! j) (newPolygon ! (j - 1))
            then dedup j (take j newPolygon @ drop (Suc j) newPolygon)
            else dedup (Suc j) newPolygon)
      else newPolygon)"
  by pat_completeness auto
termination
  by (relation "measure (\<lambda>(j, newPolygon). length newPolygon - j)") auto

declare dedup.simps [simp del]

definition roundPoint :: "point \<Rightarrow> point" where
  "roundPoint p = (Math_round (fst p), Math_round (snd p))"

definition negativePoint :: "point \<Rightarrow> bool" where
  "negativePoint p = (jsLess (fst p) (Num 0) \<or> jsLess (snd p) (Num 0))"

definition showDigit :: "nat \<Rightarrow> char" where
  "showDigit d = ''0123456789'' ! d"

fun showNat :: "nat \<Rightarrow> string" where
  "showNat n = (if n < 10 then [showDigit n] else showNat (n div 10) @ [showDigit (n mod 10)])"

declare showNat.simps [simp del]

definition negativeMessage :: string where
  "negativeMessage = ''A polygon cannot have negative coordinates.''"

definition tooFewMessage :: string where
  "tooFewMessage = ''This polygon does not have at least three unique points.''"

definition tooManyMessage :: string where
  "tooManyMessage =
     ''This polygon has more than '' @ showNat POLYGON_MAX_POINTS @ '' distinct points.''"

definition tooSmallMessage :: string where
  "tooSmallMessage = ''This polygon is too small.''"

text \<open>
  \<open>checkPolygon(polygon, minSize)\<close>. The steps are the source's, in its order: the
  type check, the rounding of every coordinate, the refusal of a negative coordinate,
  the deduplication, the two bounds on the number of points and the minimal size. On an
  empty polygon the comparison of the first and last points destructures
  \<open>undefined\<close>, which is a \<open>TypeError\<close> of the language.
\<close>

definition checkPolygon :: "polygon \<Rightarrow> number \<Rightarrow> error + polygon" where
  "checkPolygon polygon minSize =
     (case checkPoints 0 polygon of
        Some e \<Rightarrow> Inl e
      | None \<Rightarrow>
          (let rounded = map roundPoint polygon in
           if list_ex negativePoint rounded
           then Inl (InvalidPolygonError negativeMessage)
           else
             (let newPolygon = dedup 1 rounded in
              if newPolygon = []
              then Inl (TypeError ''undefined is not iterable'')
              else if length newPolygon
                      < 3 + (if pointsEqual (hd newPolygon) (last newPolygon) then 1 else 0)
              then Inl (InvalidPolygonError tooFewMessage)
              else if length newPolygon > POLYGON_MAX_POINTS + 1
                      \<or> (length newPolygon = POLYGON_MAX_POINTS + 1
                          \<and> \<not> pointsEqual (hd newPolygon) (newPolygon ! POLYGON_MAX_POINTS))
              then Inl (InvalidPolygonError tooManyMessage)
              else
                (let (width, height) = getSize newPolygon in
                 if jsLess height minSize \<or> jsLess width minSize
                 then Inl (InvalidPolygonError tooSmallMessage)
                 else Inr newPolygon))))"

text \<open>\<open>polygonsEqual\<close>: both polygons go through \<open>checkPolygon\<close> with the default
  minimal size, an error of either escapes, and the results are compared by value.\<close>

definition polygonsEqual :: "polygon \<Rightarrow> polygon \<Rightarrow> error + bool" where
  "polygonsEqual polygon1 polygon2 =
     (case checkPolygon polygon1 POLYGON_MIN_SIZE of
        Inl e \<Rightarrow> Inl e
      | Inr p1 \<Rightarrow>
          (case checkPolygon polygon2 POLYGON_MIN_SIZE of
             Inl e \<Rightarrow> Inl e
           | Inr p2 \<Rightarrow> Inr (p1 = p2)))"

text \<open>Predicates of the specification: a point of two finite numbers
  (\<open>Number.isFinite\<close> on both coordinates) and an integer (\<open>Number.isInteger\<close>).\<close>

definition finitePoint :: "point \<Rightarrow> bool" where
  "finitePoint p = (Number_isFinite (fst p) \<and> Number_isFinite (snd p))"

fun Number_isInteger :: "number \<Rightarrow> bool" where
  "Number_isInteger (Num r) = (of_int \<lfloor>r\<rfloor> = r)"
| "Number_isInteger PosInf = False"
| "Number_isInteger NegInf = False"
| "Number_isInteger NaN = False"

definition integerPoint :: "point \<Rightarrow> bool" where
  "integerPoint p = (Number_isInteger (fst p) \<and> Number_isInteger (snd p))"

text \<open>The rational of a finite number, and the coordinates of a polygon as sets.\<close>

fun theRat :: "number \<Rightarrow> rat" where
  "theRat (Num r) = r"
| "theRat PosInf = 0"
| "theRat NegInf = 0"
| "theRat NaN = 0"

definition xsOf :: "polygon \<Rightarrow> rat set" where
  "xsOf P = (theRat \<circ> fst) ` set P"

definition ysOf :: "polygon \<Rightarrow> rat set" where
  "ysOf P = (theRat \<circ> snd) ` set P"

text \<open>Predicates and inputs used to state the properties of \<open>checkPolygon\<close>.\<close>

definition nonNegativePoint :: "point \<Rightarrow> bool" where
  "nonNegativePoint p = (jsGreaterEq (fst p) (Num 0) \<and> jsGreaterEq (snd p) (Num 0))"

definition slightlyNegative :: "number \<Rightarrow> bool" where
  "slightlyNegative n = (jsGreaterEq n (Num (- 1 / 2)) \<and> jsLess n (Num 0))"

definition belowMinusHalf :: "number \<Rightarrow> bool" where
  "belowMinusHalf n = jsLess n (Num (- 1 / 2))"

definition belowMinusHalfPoint :: "point \<Rightarrow> bool" where
  "belowMinusHalfPoint p = (belowMinusHalf (fst p) \<or> belowMinusHalf (snd p))"

definition zeroed :: "number \<Rightarrow> number" where
  "zeroed n = (if slightlyNegative n then Num 0 else n)"

definition zeroedPoint :: "point \<Rightarrow> point" where
  "zeroedPoint p = (zeroed (fst p), zeroed (snd p))"

definition nanPoint :: "point \<Rightarrow> bool" where
  "nanPoint p = (fst p = NaN \<or> snd p = NaN)"

text \<open>The diagonal \<open>(0,0), (1,1), ..., (n-1,n-1)\<close>.\<close>

definition diagonal :: "nat \<Rightarrow> polygon" where
  "diagonal n = map (\<lambda>i. (Num (of_nat i), Num (of_nat i))) [0..<n]"

text \<open>165 distinct points, 162 of them within a sixth of a pixel of the corner
  \<open>(0,10)\<close> of a square of side 10.\<close>

definition crowdedSquare :: polygon where
  "crowdedSquare =
     [(Num 0, Num 0), (Num 10, Num 0), (Num 10, Num 10)]
     @ map (\<lambda>i. (Num (of_nat i / 1000), Num 10)) [1..<163]"

section \<open>Images, elements and bounding boxes\<close>

text \<open>
  An image is \<open>{width, height, url}\<close>. An element and a region both own an optional
  polygon (\<open>null\<close> or absent is \<open>None\<close>); an element also owns an optional image. The dimensions are numbers: a missing
  dimension is outside the type, so \<open>width ?? 0\<close> is \<open>width\<close>. The argument
  \<open>img\<close> of \<open>checkImageSize\<close> is any object with a width and a height.
\<close>

record dimensions =
  width :: number
  height :: number

record image = dimensions +
  url :: string

record shape =
  polygon :: "polygon option"

record element = shape +
  image :: "image option"

record box =
  box_x :: number
  box_y :: number
  box_width :: number
  box_height :: number




text \<open>
  \<open>boundingBox(element, {imageBounds})\<close>. Without a polygon the corners are those of the
  image, and reading the width of a missing image is a \<open>TypeError\<close> of the language.
  With \<open>imageBounds\<close> the image is required and every corner is brought back into it.
\<close>

definition invalidDimensions :: "image \<Rightarrow> bool" where
  "invalidDimensions img = (jsLessEq (width img) (Num 0) \<or> jsLessEq (height img) (Num 0))"

definition boundingBox :: "element \<Rightarrow> bool \<Rightarrow> error + box" where
  "boundingBox el imageBounds =
     (case (case polygon el of
              Some p \<Rightarrow> Inr (map fst p, map snd p)
            | None \<Rightarrow>
                (case image el of
                   None \<Rightarrow> Inl (TypeError ''Cannot read properties of undefined'')
                 | Some img \<Rightarrow> Inr ([Num 0, width img], [Num 0, height img]))) of
        Inl e \<Rightarrow> Inl e
      | Inr (xCoords, yCoords) \<Rightarrow>
          (let minX = Math_min xCoords;
               minY = Math_min yCoords;
               maxX = Math_max xCoords;
               maxY = Math_max yCoords
           in if imageBounds
              then (case image el of
                      None \<Rightarrow> Inl (Error ''An image is required.'')
                    | Some img \<Rightarrow>
                        if invalidDimensions img
                        then Inl (Error ''An image with valid dimensions is required.'')
                        else
                          (let minX' = Math_min [width img, Math_max [minX, Num 0]];
                               minY' = Math_min [height img, Math_max [minY, Num 0]];
                               maxX' = Math_min [width img, Math_max [maxX, Num 0]];
                               maxY' = Math_min [height img, Math_max [maxY, Num 0]]
                           in Inr \<lparr>box_x = minX', box_y = minY',
                                   box_width = jsSub maxX' minX',
                                   box_height = jsSub maxY' minY'\<rparr>))
              else Inr \<lparr>box_x = minX, box_y = minY,
                        box_width = jsSub maxX minX, box_height = jsSub maxY minY\<rparr>))"

section \<open>Image request URIs\<close>

text \<open>
  The text of a number in a template or a \<open>join\<close>. An integer below \<open>10^21\<close> in
  absolute value is written in decimal digits; the text of any other finite number is the
  language's own algorithm and is a parameter \<open>other\<close> of the model.
\<close>

definition showInt :: "int \<Rightarrow> string" where
  "showInt i = (if i < 0 then ''-'' @ showNat (nat (- i)) else showNat (nat i))"

definition numberToString :: "(rat \<Rightarrow> string) \<Rightarrow> number \<Rightarrow> string" where
  "numberToString other n =
     (case n of
        Num r \<Rightarrow> if of_int \<lfloor>r\<rfloor> = r \<and> \<bar>r\<bar> < 10 ^ 21 then showInt \<lfloor>r\<rfloor> else other r
      | PosInf \<Rightarrow> ''Infinity''
      | NegInf \<Rightarrow> ''-Infinity''
      | NaN \<Rightarrow> ''NaN'')"

fun joinWith :: "string \<Rightarrow> string list \<Rightarrow> string" where
  "joinWith sep [] = []"
| "joinWith sep [s] = s"
| "joinWith sep (s # t # ts) = s @ sep @ joinWith sep (t # ts)"

text \<open>A number is truthy unless it is zero or NaN; \<open>null\<close> as an operand of \<open>>\<close>
  or \<open>/\<close> is the number 0; \<open>v ?? Infinity\<close> replaces \<open>null\<close> only.\<close>

definition truthy :: "number \<Rightarrow> bool" where
  "truthy n = (n \<noteq> NaN \<and> n \<noteq> Num 0)"

definition orNull :: "number option \<Rightarrow> number option" where
  "orNull v = (case v of None \<Rightarrow> None | Some n \<Rightarrow> if truthy n then Some n else None)"

definition toNumber :: "number option \<Rightarrow> number" where
  "toNumber v = (case v of None \<Rightarrow> Num 0 | Some n \<Rightarrow> n)"

definition orInfinity :: "number option \<Rightarrow> number" where
  "orInfinity v = (case v of None \<Rightarrow> PosInf | Some n \<Rightarrow> n)"

definition orEmpty :: "(rat \<Rightarrow> string) \<Rightarrow> number option \<Rightarrow> string" where
  "orEmpty other v = (case v of None \<Rightarrow> [] | Some n \<Rightarrow> numberToString other n)"

definition bothTruthy :: "number option \<Rightarrow> number option \<Rightarrow> bool" where
  "bothTruthy v w =
     (case (v, w) of (Some a, Some b) \<Rightarrow> truthy a \<and> truthy b | _ \<Rightarrow> False)"

text \<open>
  \<open>iiifUri(element, {width, height})\<close>, in the order of the source: the three checks of
  the image, the base URL with its slash, the region (\<open>full\<close> or the box), the rescaling
  of both bounds when exactly one of them exceeds the box, \<open>full\<close> when both bounds reach
  the box, and otherwise the size clause.
\<close>

definition iiifUri ::
  "(rat \<Rightarrow> string) \<Rightarrow> element \<Rightarrow> number option \<Rightarrow> number option \<Rightarrow> error + string" where
  "iiifUri other el width0 height0 =
     (case image el of
        None \<Rightarrow> Inl (Error ''An image is required.'')
      | Some img \<Rightarrow>
          if invalidDimensions img
          then Inl (Error ''An image with valid dimensions is required.'')
          else if url img = []
          then Inl (Error ''An image with a valid URL is required.'')
          else
            (let width1 = orNull width0;
                 height1 = orNull height0;
                 url1 = (if last (url img) = CHR ''/'' then url img else url img @ ''/'');
                 whole = \<lparr>box_x = Num 0, box_y = Num 0,
                          box_width = width img, box_height = height img\<rparr>
             in case (case polygon el of
                        None \<Rightarrow> Inr (whole, url1 @ ''full'')
                      | Some p \<Rightarrow>
                          (case boundingBox el True of
                             Inl e \<Rightarrow> Inl e
                           | Inr b \<Rightarrow>
                               if jsLessEq (box_x b) (Num 0) \<and> jsLessEq (box_y b) (Num 0)
                                  \<and> jsGreaterEq (box_width b) (width img)
                                  \<and> jsGreaterEq (box_height b) (height img)
                               then Inr (b, url1 @ ''full'')
                               else Inr (b, url1 @ joinWith '',''
                                      (map (numberToString other)
                                         [box_x b, box_y b, box_width b, box_height b])))) of
                  Inl e \<Rightarrow> Inl e
                | Inr (b, url2) \<Rightarrow>
                    (let (width2, height2) =
                       (if jsGreater (toNumber width1) (box_width b)
                           \<noteq> jsGreater (toNumber height1) (box_height b)
                        then
                          (let ratio = Math_max [jsDiv (toNumber width1) (box_width b),
                                                 jsDiv (toNumber height1) (box_height b)]
                           in (map_option (\<lambda>w. Math_round (jsDiv w ratio)) width1,
                               map_option (\<lambda>h. Math_round (jsDiv h ratio)) height1))
                        else (width1, height1))
                     in if jsGreaterEq (orInfinity width2) (box_width b)
                           \<and> jsGreaterEq (orInfinity height2) (box_height b)
                        then Inr (url2 @ ''/full/0/default.jpg'')
                        else Inr (url2 @ ''/''
                                  @ (if bothTruthy width2 height2 then ''!'' else [])
                                  @ orEmpty other width2 @ '','' @ orEmpty other height2
                                  @ ''/0/default.jpg''))))"

section \<open>The interactive image component\<close>

text \<open>
  The state of the component and of the \<open>element\<close> module of the store it maps:
  the parsed element and children, the edited element, the data of the drag in progress,
  the view position, the mode and the selected, highlighted and hovered ids. A child is
  \<open>{id, polygon}\<close> or \<open>null\<close>; an id is a number or a string (the element being
  drawn has the id \<open>'created-polygon'\<close>). \<open>events\<close> is the log of the custom events
  the component and the store dispatch on the document, oldest first. Watchers run after
  the method that triggers them and are not part of a step.
\<close>

datatype ident = NumId int | StrId string

record region = shape +
  elementId :: ident

datatype event =
    CreateElement region
  | UpdateElement ident polygon
  | SelectElement ident
  | UnselectElement ident

datatype elementMode = DISPLAY_MODE | SELECT_MODE | CREATE_MODE

datatype action = Down | Up | Move | DbClick | Zoom

record position =
  pos_x :: number
  pos_y :: number
  applied :: bool
  recenter :: bool

record state =
  parsedElement :: "element option"
  parsedChildren :: "region option list"
  editedElement :: "region option"
  movedPointIndex :: "nat option"
  mouseDown :: bool
  lastMousePosition :: "point option"
  updatedPolygon :: bool
  viewPosition :: position
  mode :: elementMode
  selected :: "ident list"
  highlighted :: "ident list"
  hovered :: "ident option"
  events :: "event list"

text \<open>A method returns the state it leaves, with the error it threw if it threw one.\<close>

type_synonym outcome = "error option \<times> state"

text \<open>\<open>this.editedElement?.id\<close>.\<close>

definition editedId :: "state \<Rightarrow> ident option" where
  "editedId st = map_option elementId (editedElement st)"

subsection \<open>The store\<close>

definition setHovered :: "ident option \<Rightarrow> state \<Rightarrow> state" where
  "setHovered i st = st\<lparr>hovered := i\<rparr>"

text \<open>
  The mutation \<open>removeSelected\<close> removes the first occurrence of the id and dispatches
  \<open>unselect-element\<close>. The component listens to that event on the document: its
  listener, run before \<open>dispatchEvent\<close> returns, calls \<open>removeSelected\<close> again with
  \<open>force\<close> and clears the edited element when it has that id.
\<close>

function removeSelected :: "ident \<Rightarrow> bool \<Rightarrow> state \<Rightarrow> state" where
  "removeSelected i force st =
     (if i \<notin> set (selected st) \<or> (\<not> force \<and> mode st \<noteq> SELECT_MODE)
      then st
      else
        (let st1 = st\<lparr>selected := remove1 i (selected st),
                       events := events st @ [UnselectElement i]\<rparr>;
             st2 = removeSelected i True st1
         in if editedId st2 = Some i then st2\<lparr>editedElement := None\<rparr> else st2))"
  by pat_completeness auto
termination
  by (relation "measure (\<lambda>(i, force, st). length (selected st))")
     (auto simp: length_remove1 dest: length_pos_if_in_set)

declare removeSelected.simps [simp del]

subsection \<open>The list of children\<close>

text \<open>\<open>Array.prototype.findIndex\<close>, and \<open>splice(start, 1)\<close>: a negative start counts
  from the end of the array.\<close>

fun findIndex :: "('a \<Rightarrow> bool) \<Rightarrow> 'a list \<Rightarrow> int" where
  "findIndex f [] = - 1"
| "findIndex f (a # as) =
     (if f a then 0 else (let k = findIndex f as in if k < 0 then - 1 else k + 1))"

definition spliceOne :: "int \<Rightarrow> 'a list \<Rightarrow> 'a list" where
  "spliceOne start as =
     (let n = int (length as);
          k = nat (if start < 0 then max (n + start) 0 else min start n)
      in take k as @ drop (Suc k) as)"

definition getChildIndex :: "state \<Rightarrow> ident \<Rightarrow> int" where
  "getChildIndex st i = findIndex (\<lambda>e. map_option elementId e = Some i) (parsedChildren st)"

text \<open>The listener of \<open>delete-element\<close> registered in \<open>created\<close>.\<close>

definition deleteElement :: "ident \<Rightarrow> state \<Rightarrow> state" where
  "deleteElement i st =
     (let st1 = removeSelected i True st;
          st2 = st1\<lparr>parsedChildren := spliceOne (getChildIndex st1 i) (parsedChildren st1)\<rparr>
      in if editedId st2 = Some i then st2\<lparr>editedElement := None\<rparr> else st2)"

subsection \<open>Creating a region\<close>

text \<open>\<open>checkPolygon\<close> on a value that may be \<open>undefined\<close>, with the default minimal
  size: the first line of the source refuses what is not an array.\<close>

definition checkPolygonValue :: "polygon option \<Rightarrow> error + polygon" where
  "checkPolygonValue v =
     (case v of
        None \<Rightarrow> Inl (TypeError ''Expected Array, got undefined'')
      | Some p \<Rightarrow> checkPolygon p POLYGON_MIN_SIZE)"

definition editElement :: "region option \<Rightarrow> state \<Rightarrow> outcome" where
  "editElement el st =
     (case el of
        None \<Rightarrow> (None, st\<lparr>editedElement := None\<rparr>)
      | Some e \<Rightarrow>
          if polygon e = None
          then (Some (Error ''Edited element must be null or have a defined polygon.''), st)
          else (None, st\<lparr>editedElement := Some e\<rparr>))"

definition isInvalidPolygonError :: "error \<Rightarrow> bool" where
  "isInvalidPolygonError e = (case e of InvalidPolygonError m \<Rightarrow> True | _ \<Rightarrow> False)"

text \<open>
  \<open>id + 1\<close> on a numeric id is an addition of doubles. For an integer \<open>n\<close> that a
  double holds, the sum is exact as long as it is at most \<open>2^53\<close> in absolute value.
  From \<open>2^53\<close> to \<open>2^54\<close> the doubles are the even integers, \<open>n + 1\<close> lies
  halfway between \<open>n\<close> and \<open>n + 2\<close>, and the tie goes to the one whose half is
  even. From \<open>2^54\<close> on, \<open>n\<close> itself is the nearest double.
\<close>

definition doubleSucc :: "int \<Rightarrow> int" where
  "doubleSucc n =
     (if - (2 ^ 53) \<le> n \<and> n < 2 ^ 53 then n + 1
      else if \<bar>n\<bar> < 2 ^ 54 then (if even (n div 2) then n else n + 2)
      else n)"


definition nextId :: "region option list \<Rightarrow> ident" where
  "nextId children =
     (case (if children = [] then None else last children) of
        None \<Rightarrow> NumId 1
      | Some lastElement \<Rightarrow>
          (case elementId lastElement of
             NumId n \<Rightarrow> NumId (doubleSucc n)
           | StrId s \<Rightarrow> NumId 1))"

text \<open>
  \<open>create\<close>. The \<open>try\<close> holds the check and the update of the edited element; an
  \<open>InvalidPolygonError\<close> is caught, the edited element is dropped and the method
  returns; any other error is thrown again.
\<close>

definition create :: "state \<Rightarrow> outcome" where
  "create st =
     (case editedElement st of
        None \<Rightarrow> (None, st)
      | Some ed \<Rightarrow>
          (case (case checkPolygonValue (polygon ed) of
                   Inl e \<Rightarrow> Inl e
                 | Inr p \<Rightarrow>
                     (case editElement (Some (ed\<lparr>polygon := Some p\<rparr>)) st of
                        (Some e, st') \<Rightarrow> Inl e
                      | (None, st') \<Rightarrow> Inr (p, st'))) of
             Inl e \<Rightarrow>
               if isInvalidPolygonError e then editElement None st else (Some e, st)
           | Inr (p, st1) \<Rightarrow>
               (let newId = nextId (parsedChildren st1);
                    newElement = \<lparr>polygon = Some p, elementId = newId\<rparr>;
                    st2 = st1\<lparr>parsedChildren := parsedChildren st1 @ [Some newElement]\<rparr>
                in case editElement None st2 of
                     (Some e, st3) \<Rightarrow> (Some e, st3)
                   | (None, st3) \<Rightarrow>
                       (None, st3\<lparr>events := events st3 @ [CreateElement newElement]\<rparr>))))"

subsection \<open>Limits of the element\<close>

text \<open>
  The computed property \<open>originalBoundingBox\<close> is the bounding box of the parsed
  element, within the image; it throws when \<open>boundingBox\<close> does. Without a parsed
  element it is \<open>{}\<close>, whose four fields read as \<open>undefined\<close>: in the comparisons
  and the sum of \<open>elementLimits\<close> they behave as NaN.
\<close>

definition originalBoundingBox :: "state \<Rightarrow> error + box" where
  "originalBoundingBox st =
     (case parsedElement st of
        None \<Rightarrow> Inr \<lparr>box_x = NaN, box_y = NaN, box_width = NaN, box_height = NaN\<rparr>
      | Some el \<Rightarrow> boundingBox el True)"

definition limit :: "number \<Rightarrow> number \<Rightarrow> number \<Rightarrow> number" where
  "limit lo len pos =
     (if jsLess pos lo then lo
      else if jsGreater pos (jsAdd lo len) then jsAdd lo len
      else pos)"

definition limitPoint :: "box \<Rightarrow> point \<Rightarrow> point" where
  "limitPoint b p = (limit (box_x b) (box_width b) (fst p), limit (box_y b) (box_height b) (snd p))"

definition elementLimits :: "state \<Rightarrow> point \<Rightarrow> error + point" where
  "elementLimits st p =
     (case originalBoundingBox st of
        Inl e \<Rightarrow> Inl e
      | Inr b \<Rightarrow> Inr (limitPoint b p))"

text \<open>A point is within a box when both coordinates are between the corner and the
  corner plus the size.\<close>

definition withinBox :: "box \<Rightarrow> point \<Rightarrow> bool" where
  "withinBox b p =
     (jsLessEq (box_x b) (fst p) \<and> jsLessEq (fst p) (jsAdd (box_x b) (box_width b))
      \<and> jsLessEq (box_y b) (snd p) \<and> jsLessEq (snd p) (jsAdd (box_y b) (box_height b)))"

subsection \<open>Moving a point, a polygon and the view\<close>

text \<open>
  \<open>movePoint\<close> and \<open>movePolygon\<close> return a polygon or \<open>undefined\<close>. Reading the
  polygon of no edited element, spreading a polygon that is \<open>undefined\<close>, and
  destructuring a point that is \<open>undefined\<close> (an index past the end, no last mouse
  position) are \<open>TypeError\<close>s of the language.
\<close>

definition movePoint :: "point \<Rightarrow> state \<Rightarrow> error + polygon option" where
  "movePoint pos st =
     (case editedElement st of
        None \<Rightarrow> Inl (TypeError ''Cannot read properties of null'')
      | Some ed \<Rightarrow>
          (case polygon ed of
             None \<Rightarrow> Inl (TypeError ''undefined is not iterable'')
           | Some p \<Rightarrow>
               (case elementLimits st pos of
                  Inl e \<Rightarrow> Inl e
                | Inr limitedPosition \<Rightarrow>
                    (case movedPointIndex st of
                       None \<Rightarrow> Inl (TypeError ''undefined is not iterable'')
                     | Some i \<Rightarrow>
                         if length p \<le> i
                         then Inl (TypeError ''undefined is not iterable'')
                         else if pointsEqual (p ! i) limitedPosition
                         then Inr None
                         else
                           (let p1 = p[i := limitedPosition];
                                p2 = (if i = 0 then p1[length p1 - 1 := limitedPosition] else p1)
                            in Inr (Some p2))))))"

definition movePolygon :: "point \<Rightarrow> state \<Rightarrow> error + polygon option" where
  "movePolygon pos st =
     (case lastMousePosition st of
        None \<Rightarrow> Inl (TypeError ''undefined is not iterable'')
      | Some l \<Rightarrow>
          if pointsEqual l pos then Inr None
          else
            (case editedElement st of
               None \<Rightarrow> Inl (TypeError ''Cannot read properties of null'')
             | Some ed \<Rightarrow>
                 (let translationVector = (jsSub (fst pos) (fst l), jsSub (snd pos) (snd l))
                  in case polygon ed of
                       None \<Rightarrow> Inl (TypeError ''Cannot read properties of undefined'')
                     | Some p \<Rightarrow>
                         (let newPolygon = shiftPolygon p translationVector
                          in if newPolygon = [] then Inr (Some newPolygon)
                             else
                               (case originalBoundingBox st of
                                  Inl e \<Rightarrow> Inl e
                                | Inr b \<Rightarrow>
                                    if list_all (\<lambda>q. pointsEqual q (limitPoint b q)) newPolygon
                                    then Inr (Some newPolygon)
                                    else Inr None)))))"

definition translate :: "point \<Rightarrow> state \<Rightarrow> state" where
  "translate pos st =
     (case lastMousePosition st of
        None \<Rightarrow> st
      | Some l \<Rightarrow>
          st\<lparr>viewPosition :=
               \<lparr>pos_x = jsAdd (pos_x (viewPosition st)) (jsSub (fst pos) (fst l)),
                pos_y = jsAdd (pos_y (viewPosition st)) (jsSub (snd pos) (snd l)),
                applied = False, recenter = False\<rparr>\<rparr>)"

subsection \<open>Saving the edited element\<close>

text \<open>\<open>array[index]\<close> on the children: \<open>undefined\<close> out of range, and \<open>null\<close>,
  are both \<open>None\<close>.\<close>

definition childAt :: "region option list \<Rightarrow> int \<Rightarrow> region option" where
  "childAt children k =
     (if 0 \<le> k \<and> nat k < length children then children ! nat k else None)"

definition polygonsEqualValue :: "polygon option \<Rightarrow> polygon option \<Rightarrow> error + bool" where
  "polygonsEqualValue v1 v2 =
     (case checkPolygonValue v1 of
        Inl e \<Rightarrow> Inl e
      | Inr p1 \<Rightarrow> (case checkPolygonValue v2 of Inl e \<Rightarrow> Inl e | Inr p2 \<Rightarrow> Inr (p1 = p2)))"

text \<open>
  \<open>saveEdited\<close>. The \<open>catch\<close> calls \<open>this.edit(baseElt || null)\<close> and throws the
  error again. That call gives \<open>edit\<close> the base element as position and no action, and
  \<open>edit\<close> returns at once when the action is none of down, up and move (lemma
  \<open>edit_no_action\<close> below): the state of the \<open>catch\<close> is the state of the throw.
\<close>

definition saveEdited :: "state \<Rightarrow> outcome" where
  "saveEdited st =
     (let st1 = st\<lparr>movedPointIndex := None\<rparr>
      in case editedElement st1 of
           None \<Rightarrow> (Some (TypeError ''Cannot read properties of null''), st1)
         | Some ed \<Rightarrow>
             (let st2 = (if lastMousePosition st1 \<noteq> None
                         then setHovered (Some (elementId ed)) st1 else st1);
                  indexBaseElt = getChildIndex st2 (elementId ed);
                  baseElt = childAt (parsedChildren st2) indexBaseElt
              in if baseElt \<noteq> None \<and> \<not> updatedPolygon st2 then (None, st2)
                 else
                   (let st3 = st2\<lparr>updatedPolygon := False\<rparr>
                    in case checkPolygonValue (polygon ed) of
                         Inl e \<Rightarrow> (Some e, st3)
                       | Inr reorderedPolygon \<Rightarrow>
                           (case baseElt of
                              None \<Rightarrow>
                                (Some (TypeError ''Cannot read properties of undefined''), st3)
                            | Some b \<Rightarrow>
                                (case polygonsEqualValue (Some reorderedPolygon) (polygon b) of
                                   Inl e \<Rightarrow> (Some e, st3)
                                 | Inr True \<Rightarrow> (None, st3)
                                 | Inr False \<Rightarrow>
                                     (let updatedElement = ed\<lparr>polygon := Some reorderedPolygon\<rparr>;
                                          st4 = st3\<lparr>parsedChildren :=
                                                      (parsedChildren st3)
                                                        [nat indexBaseElt := Some updatedElement],
                                                    events := events st3 @
                                                      [UpdateElement (elementId ed)
                                                         reorderedPolygon]\<rparr>
                                      in editElement None st4))))))"

subsection \<open>The handler of the edition tool\<close>

definition identTruthy :: "ident \<Rightarrow> bool" where
  "identTruthy i = (case i of NumId n \<Rightarrow> n \<noteq> 0 | StrId s \<Rightarrow> s \<noteq> [])"

text \<open>\<open>edit(position, action)\<close>; no action is \<open>None\<close>.\<close>

definition edit :: "point \<Rightarrow> action option \<Rightarrow> state \<Rightarrow> outcome" where
  "edit pos act st =
     (if act = Some Down
      then
        (case hovered st of
           None \<Rightarrow> editElement None st
         | Some h \<Rightarrow>
             if identTruthy h \<and> childAt (parsedChildren st) (getChildIndex st h) \<noteq> None
             then editElement (childAt (parsedChildren st) (getChildIndex st h)) st
             else editElement None st)
      else if act = Some Up
      then (if editedElement st \<noteq> None then saveEdited st else (None, translate pos st))
      else if act \<noteq> Some Move \<or> \<not> mouseDown st then (None, st)
      else
        (case editedElement st of
           None \<Rightarrow> (None, translate pos st)
         | Some ed \<Rightarrow>
             (case (if movedPointIndex st \<noteq> None then movePoint pos st
                    else if lastMousePosition st \<noteq> None then movePolygon pos st
                    else Inr None) of
                Inl e \<Rightarrow> (Some e, st)
              | Inr moved \<Rightarrow>
                  (let st1 = st\<lparr>updatedPolygon := True\<rparr>
                   in case moved of
                        None \<Rightarrow> (None, st1)
                      | Some p \<Rightarrow> editElement (Some (ed\<lparr>polygon := Some p\<rparr>)) st1))))"

section \<open>States used in the examples\<close>

definition square :: "rat \<Rightarrow> polygon" where
  "square a =
     [(Num a, Num a), (Num (a + 5), Num a), (Num (a + 5), Num (a + 5)), (Num a, Num (a + 5)),
      (Num a, Num a)]"

definition squareRegion :: "int \<Rightarrow> region option" where
  "squareRegion n = Some \<lparr>polygon = Some (square (of_int n)), elementId = NumId n\<rparr>"

text \<open>An image of 100 by 100 with the children 1 to \<open>n\<close>, child 3 selected and
  highlighted, nothing being edited.\<close>

definition regions :: "int \<Rightarrow> state" where
  "regions n =
     \<lparr>parsedElement =
        Some \<lparr>polygon = None,
              image = Some \<lparr>width = Num 100, height = Num 100, url = ''http://x/img''\<rparr>\<rparr>,
      parsedChildren = map squareRegion [1..n],
      editedElement = None,
      movedPointIndex = None,
      mouseDown = False,
      lastMousePosition = None,
      updatedPolygon = False,
      viewPosition = \<lparr>pos_x = Num 0, pos_y = Num 0, applied = False, recenter = True\<rparr>,
      mode = CREATE_MODE,
      selected = [NumId 3],
      highlighted = [NumId 3],
      hovered = None,
      events = []\<rparr>"


definition segment :: polygon where
  "segment = [(Num 1, Num 1), (Num 9, Num 9)]"

text \<open>Child 2 of five being edited, its working copy dragged into a segment.\<close>

definition collapsedEdit :: state where
  "collapsedEdit =
     (regions 5)\<lparr>editedElement := Some \<lparr>polygon = Some segment, elementId = NumId 2\<rparr>,
                 updatedPolygon := True\<rparr>"

text \<open>Child 2 of five being dragged by its first vertex, the mouse button down.\<close>

definition vertexDrag :: state where
  "vertexDrag =
     (regions 5)\<lparr>editedElement := squareRegion 2, mouseDown := True,
                 movedPointIndex := Some 0\<rparr>"

text \<open>A box whose corner and size are finite and whose size is not negative.\<close>

definition properBox :: "box \<Rightarrow> bool" where
  "properBox b =
     (Number_isFinite (box_x b) \<and> Number_isFinite (box_y b)
      \<and> jsGreaterEq (box_width b) (Num 0) \<and> Number_isFinite (box_width b)
      \<and> jsGreaterEq (box_height b) (Num 0) \<and> Number_isFinite (box_height b))"

section \<open>Facts about numbers and lists\<close>

lemma isFinite_iff: "Number_isFinite n \<longleftrightarrow> (\<exists>r. n = Num r)"
  by (cases n) auto

lemma checkPoints_None: "checkPoints i P = None \<longleftrightarrow> list_all finitePoint P"
  by (induction P arbitrary: i) (auto simp: finitePoint_def)

lemma pointsEqual_finite:
  "finitePoint p \<Longrightarrow> finitePoint q \<Longrightarrow> pointsEqual p q = (p = q)"
  by (cases p; cases q) (auto simp: finitePoint_def pointsEqual_def jsStrictEq_def isFinite_iff)

text \<open>On finite points the loop removes exactly the adjacent duplicates.\<close>

lemma dedup_splice:
  "list_all finitePoint (pre @ a # rest) \<Longrightarrow>
   dedup (Suc (length pre)) (pre @ a # rest) = pre @ remdups_adj (a # rest)"
proof (induction rest arbitrary: pre a)
  case Nil
  then show ?case by (simp add: dedup.simps)
next
  case (Cons b rs)
  have fa: "finitePoint a" and fb: "finitePoint b" using Cons.prems by auto
  show ?case
  proof (cases "b = a")
    case True
    have "dedup (Suc (length pre)) (pre @ a # b # rs) = dedup (Suc (length pre)) (pre @ a # rs)"
      using True fa by (subst dedup.simps) (simp add: pointsEqual_finite nth_append)
    also have "\<dots> = pre @ remdups_adj (a # rs)"
      using Cons.prems by (intro Cons.IH) simp
    finally show ?thesis using True by simp
  next
    case False
    have "dedup (Suc (length pre)) (pre @ a # b # rs) = dedup (Suc (Suc (length pre))) (pre @ a # b # rs)"
      using False fa fb by (subst dedup.simps) (simp add: pointsEqual_finite nth_append)
    also have "\<dots> = dedup (Suc (length (pre @ [a]))) ((pre @ [a]) @ b # rs)" by simp
    also have "\<dots> = (pre @ [a]) @ remdups_adj (b # rs)"
      using Cons.prems by (intro Cons.IH) simp
    finally show ?thesis using False by simp
  qed
qed

lemma dedup_remdups_adj: "list_all finitePoint xs \<Longrightarrow> dedup 1 xs = remdups_adj xs"
proof (cases xs)
  case Nil
  then show ?thesis by (simp add: dedup.simps)
next
  case (Cons a rest)
  assume "list_all finitePoint xs"
  then show ?thesis using dedup_splice [of "[]" a rest] Cons by simp
qed

lemma floor_half_int: "\<lfloor>(of_int k :: rat) + 1 / 2\<rfloor> = k"
  by (rule floor_unique) auto

lemma Math_round_idem: "Math_round (Math_round n) = Math_round n"
  by (cases n) (simp_all add: floor_half_int)

lemma roundPoint_idem: "roundPoint (roundPoint p) = roundPoint p"
  by (simp add: roundPoint_def Math_round_idem)

lemma finite_roundPoint: "finitePoint p \<Longrightarrow> finitePoint (roundPoint p)"
  by (cases p) (auto simp: finitePoint_def roundPoint_def isFinite_iff)

lemma remdups_adj_idem: "remdups_adj (remdups_adj xs) = remdups_adj xs"
  using distinct_adj_remdups_adj [of xs] by (simp only: distinct_adj_altdef)

lemma foldl_min2_Num:
  "list_all Number_isFinite xs \<Longrightarrow>
   foldl min2 (Num a) xs = Num (Min (insert a (theRat ` set xs)))"
proof (induction xs arbitrary: a)
  case Nil
  then show ?case by simp
next
  case (Cons x xs)
  then obtain b where x: "x = Num b" by (auto simp: isFinite_iff)
  have m: "min2 (Num a) (Num b) = Num (min a b)"
    by (auto simp: min2_def min_def)
  have "Min (insert (min a b) (theRat ` set xs)) = Min (insert a (insert b (theRat ` set xs)))"
    by (cases "set xs = {}") (auto simp: min.assoc)
  then show ?case using Cons x m by simp
qed

lemma foldl_max2_Num:
  "list_all Number_isFinite xs \<Longrightarrow>
   foldl max2 (Num a) xs = Num (Max (insert a (theRat ` set xs)))"
proof (induction xs arbitrary: a)
  case Nil
  then show ?case by simp
next
  case (Cons x xs)
  then obtain b where x: "x = Num b" by (auto simp: isFinite_iff)
  have m: "max2 (Num a) (Num b) = Num (max a b)"
    by (auto simp: max2_def max_def)
  have "Max (insert (max a b) (theRat ` set xs)) = Max (insert a (insert b (theRat ` set xs)))"
    by (cases "set xs = {}") (auto simp: max.assoc)
  then show ?case using Cons x m by simp
qed

lemma Math_min_finite:
  assumes "list_all Number_isFinite xs" "xs \<noteq> []"
  shows "Math_min xs = Num (Min (theRat ` set xs))"
proof -
  obtain x rest where xs: "xs = x # rest" using assms(2) by (cases xs) auto
  then obtain b where x: "x = Num b" using assms(1) by (auto simp: isFinite_iff)
  have "Math_min xs = foldl min2 (Num b) rest"
    by (simp add: Math_min_def xs x min2_def)
  then show ?thesis using foldl_min2_Num [of rest b] assms(1) xs x by simp
qed

lemma Math_max_finite:
  assumes "list_all Number_isFinite xs" "xs \<noteq> []"
  shows "Math_max xs = Num (Max (theRat ` set xs))"
proof -
  obtain x rest where xs: "xs = x # rest" using assms(2) by (cases xs) auto
  then obtain b where x: "x = Num b" using assms(1) by (auto simp: isFinite_iff)
  have "Math_max xs = foldl max2 (Num b) rest"
    by (simp add: Math_max_def xs x max2_def)
  then show ?thesis using foldl_max2_Num [of rest b] assms(1) xs x by simp
qed

lemma getSize_finite:
  assumes "list_all finitePoint P" "P \<noteq> []"
  shows "getSize P = (Num (Max (xsOf P) - Min (xsOf P)), Num (Max (ysOf P) - Min (ysOf P)))"
proof -
  have fx: "list_all Number_isFinite (map fst P)" and fy: "list_all Number_isFinite (map snd P)"
    using assms(1) by (auto simp: list_all_iff finitePoint_def)
  have ne: "map fst P \<noteq> []" "map snd P \<noteq> []" using assms(2) by auto
  show ?thesis
    unfolding getSize_def Let_def
    by (simp add: Math_min_finite [OF fx ne(1)] Math_max_finite [OF fx ne(1)]
        Math_min_finite [OF fy ne(2)] Math_max_finite [OF fy ne(2)] jsSub_def xsOf_def ysOf_def
        image_image)
qed

lemma getSize_cong_set:
  assumes "list_all finitePoint P" "P \<noteq> []" "set Q = set P"
  shows "getSize Q = getSize P"
proof -
  have "list_all finitePoint Q" "Q \<noteq> []" using assms by (auto simp: list_all_iff)
  then show ?thesis using assms by (simp add: getSize_finite xsOf_def ysOf_def)
qed

lemma checkPolygon_finite:
  assumes "list_all finitePoint P"
  shows "checkPolygon P m =
     (let R = map roundPoint P; np = remdups_adj R in
      if list_ex negativePoint R then Inl (InvalidPolygonError negativeMessage)
      else if np = [] then Inl (TypeError ''undefined is not iterable'')
      else if length np < 3 + (if hd np = last np then 1 else 0)
      then Inl (InvalidPolygonError tooFewMessage)
      else if length np > 164 \<or> (length np = 164 \<and> hd np \<noteq> last np)
      then Inl (InvalidPolygonError tooManyMessage)
      else if jsLess (snd (getSize np)) m \<or> jsLess (fst (getSize np)) m
      then Inl (InvalidPolygonError tooSmallMessage)
      else Inr np)"
proof -
  define R where "R = map roundPoint P"
  define np where "np = remdups_adj R"
  have fR: "list_all finitePoint R"
    using assms by (auto simp: R_def list_all_iff finite_roundPoint)
  have d: "dedup 1 R = np" unfolding np_def by (rule dedup_remdups_adj [OF fR])
  have fnp: "list_all finitePoint np"
    using fR by (simp add: np_def list_all_iff)
  have eq: "np \<noteq> [] \<Longrightarrow> pointsEqual (hd np) (last np) = (hd np = last np)"
    using fnp by (intro pointsEqual_finite) (auto simp: list_all_iff)
  have eq2: "length np = 164 \<Longrightarrow> pointsEqual (hd np) (np ! 163) = (hd np = last np)"
  proof -
    assume l: "length np = 164"
    then have "np \<noteq> []" by auto
    moreover have "np ! 163 = last np" using l \<open>np \<noteq> []\<close> by (simp add: last_conv_nth)
    ultimately show ?thesis using eq by simp
  qed
  have cp: "checkPoints 0 P = None" using assms by (simp add: checkPoints_None)
  show ?thesis
    unfolding checkPolygon_def cp Let_def R_def [symmetric] d
    unfolding np_def [symmetric] POLYGON_MAX_POINTS_def
    using eq eq2 by (auto split: prod.splits)
qed

lemma checkPoints_first:
  "\<not> list_all finitePoint P \<Longrightarrow>
   \<exists>i. i < length P \<and> \<not> finitePoint (P ! i) \<and> (\<forall>j<i. finitePoint (P ! j))
       \<and> checkPoints k P = Some (TypeErrorPoint (k + i) (P ! i))"
proof (induction P arbitrary: k)
  case Nil
  then show ?case by simp
next
  case (Cons p ps)
  show ?case
  proof (cases "finitePoint p")
    case False
    then have "checkPoints k (p # ps) = Some (TypeErrorPoint (k + 0) ((p # ps) ! 0))"
      by (auto simp: finitePoint_def)
    then show ?thesis using False by (intro exI [of _ 0]) simp
  next
    case True
    then have "\<not> list_all finitePoint ps" using Cons.prems by simp
    from Cons.IH [OF this, of "Suc k"] obtain i where
      i: "i < length ps" "\<not> finitePoint (ps ! i)" "\<forall>j<i. finitePoint (ps ! j)"
         "checkPoints (Suc k) ps = Some (TypeErrorPoint (Suc k + i) (ps ! i))"
      by blast
    have "\<forall>j<Suc i. finitePoint ((p # ps) ! j)"
      using True i(3) by (auto simp: nth_Cons split: nat.splits)
    moreover have "checkPoints k (p # ps) = Some (TypeErrorPoint (k + Suc i) ((p # ps) ! Suc i))"
      using True i(4) by (simp add: finitePoint_def)
    ultimately show ?thesis using i(1,2) by (intro exI [of _ "Suc i"]) simp
  qed
qed

lemma checkPolygon_not_finite:
  assumes "\<not> list_all finitePoint P"
  shows "\<exists>i. i < length P \<and> \<not> finitePoint (P ! i) \<and> (\<forall>j<i. finitePoint (P ! j))
       \<and> checkPolygon P m = Inl (TypeErrorPoint i (P ! i))"
proof -
  from checkPoints_first [OF assms, of 0] obtain i where
    i: "i < length P" "\<not> finitePoint (P ! i)" "\<forall>j<i. finitePoint (P ! j)"
       "checkPoints 0 P = Some (TypeErrorPoint i (P ! i))"
    by auto
  have "checkPolygon P m = Inl (TypeErrorPoint i (P ! i))"
    by (simp add: checkPolygon_def i(4))
  then show ?thesis using i by blast
qed

lemma checkPolygon_Inr_finite: "checkPolygon P m = Inr r \<Longrightarrow> list_all finitePoint P"
  using checkPolygon_not_finite [of P m] by (cases "list_all finitePoint P") auto

lemma map_roundPoint_fixed:
  "map roundPoint (remdups_adj (map roundPoint P)) = remdups_adj (map roundPoint P)"
  by (rule map_idI) (auto simp: roundPoint_idem)

lemma checkPolygon_idem:
  assumes "checkPolygon P m = Inr r"
  shows "checkPolygon r m = Inr r"
proof -
  have fP: "list_all finitePoint P" by (rule checkPolygon_Inr_finite [OF assms])
  define R where "R = map roundPoint P"
  have r: "r = remdups_adj R"
    using assms unfolding checkPolygon_finite [OF fP] Let_def R_def
    by (auto split: if_splits)
  have fr: "list_all finitePoint r"
    using fP by (auto simp: r R_def list_all_iff finite_roundPoint)
  have mr: "map roundPoint r = r" unfolding r R_def by (rule map_roundPoint_fixed)
  have rr: "remdups_adj r = r" unfolding r by (rule remdups_adj_idem)
  have neg: "list_ex negativePoint r = list_ex negativePoint R"
    by (simp add: r list_ex_iff)
  show ?thesis
    using assms unfolding checkPolygon_finite [OF fP] checkPolygon_finite [OF fr] Let_def
      R_def [symmetric] mr rr neg
    unfolding r [symmetric]
    by (auto split: if_splits)
qed

lemma integer_finite: "Number_isInteger n \<Longrightarrow> Number_isFinite n"
  by (cases n) auto

lemma integerPoint_finite: "integerPoint p \<Longrightarrow> finitePoint p"
  by (simp add: integerPoint_def finitePoint_def integer_finite)

lemma Math_round_integer: "Number_isInteger n \<Longrightarrow> Math_round n = n"
proof (cases n)
  case (Num r)
  assume "Number_isInteger n"
  then obtain k where r: "r = of_int k" using Num by auto
  then show ?thesis using Num by (simp add: floor_half_int)
qed auto

lemma roundPoint_integer: "integerPoint p \<Longrightarrow> roundPoint p = p"
  by (simp add: integerPoint_def roundPoint_def Math_round_integer)

lemma length_closed_list:
  assumes "3 \<le> card (set xs)"
  shows "\<not> length xs < 3 + (if hd xs = last xs then 1 else 0)"
proof -
  have l3: "3 \<le> length xs" using assms card_length [of xs] by linarith
  then obtain x ys where xs: "xs = x # ys" by (cases xs) auto
  have "hd xs = last xs \<Longrightarrow> 4 \<le> length xs"
  proof -
    assume h: "hd xs = last xs"
    have "ys \<noteq> []" using l3 xs by auto
    then have "last ys = x" using h xs by simp
    then have "x \<in> set ys" using \<open>ys \<noteq> []\<close> last_in_set by metis
    then have "set xs = set ys" using xs by auto
    then have "card (set xs) \<le> length ys" using card_length [of ys] by simp
    then show ?thesis using assms xs by simp
  qed
  then show ?thesis using l3 by auto
qed

lemma messages_distinct:
  "distinct [negativeMessage, tooFewMessage, tooManyMessage, tooSmallMessage]"
  by (simp add: negativeMessage_def tooFewMessage_def tooManyMessage_def tooSmallMessage_def)

lemma round_not_negative:
  assumes "Number_isFinite n" "\<not> belowMinusHalf n"
  shows "\<not> jsLess (Math_round n) (Num 0)"
proof -
  obtain r where n: "n = Num r" using assms(1) by (auto simp: isFinite_iff)
  have "- 1 / 2 \<le> r" using assms(2) n by (simp add: belowMinusHalf_def)
  then have "0 \<le> \<lfloor>r + 1 / 2\<rfloor>" by simp
  then show ?thesis using n by simp
qed

lemma round_negative:
  assumes "belowMinusHalf n" "Number_isFinite n"
  shows "jsLess (Math_round n) (Num 0)"
proof -
  obtain r where n: "n = Num r" using assms(2) by (auto simp: isFinite_iff)
  have "r < - 1 / 2" using assms(1) n by (simp add: belowMinusHalf_def)
  then have "r + 1 / 2 < 0" by simp
  then have "\<lfloor>r + 1 / 2\<rfloor> < 0" by (simp add: floor_less_iff)
  then show ?thesis using n by simp
qed

lemma round_slightlyNegative: "slightlyNegative n \<Longrightarrow> Math_round n = Num 0"
proof (cases n)
  case (Num r)
  assume "slightlyNegative n"
  then have "- 1 / 2 \<le> r" "r < 0" using Num by (auto simp: slightlyNegative_def jsGreaterEq_def)
  then have "\<lfloor>r + 1 / 2\<rfloor> = 0" by (intro floor_unique) auto
  then show ?thesis using Num by simp
qed (auto simp: slightlyNegative_def jsGreaterEq_def)

lemma floor_half: "\<lfloor>1 / 2 :: rat\<rfloor> = 0"
  by (rule floor_unique) auto

lemma round_zeroed: "Math_round (zeroed n) = Math_round n"
  by (simp add: zeroed_def round_slightlyNegative floor_half)

lemma finite_zeroed: "Number_isFinite n \<Longrightarrow> Number_isFinite (zeroed n)"
  by (simp add: zeroed_def)

section \<open>Properties of \<open>checkPolygon\<close>\<close>

text \<open>
  C10. \<open>checkPolygon\<close> rounds before it looks at the signs. A coordinate in the
  interval from -0.5 (included) to 0 (excluded) is rounded to 0; a polygon of finite
  points none of whose coordinates is below -0.5 is checked exactly as the polygon with
  those coordinates replaced by 0, and is never refused for a negative coordinate; a
  polygon of finite points with a coordinate below -0.5 is refused with the
  negative-coordinate error.
\<close>

theorem checkPolygon_rounding_precedes_sign_check:
  assumes "list_all finitePoint P" and "\<not> list_ex belowMinusHalfPoint P"
    and "list_all finitePoint Q" and "list_ex belowMinusHalfPoint Q"
  shows "(slightlyNegative n \<longrightarrow> Math_round n = Num 0)
       \<and> checkPolygon P m = checkPolygon (map zeroedPoint P) m
       \<and> checkPolygon P m \<noteq> Inl (InvalidPolygonError negativeMessage)
       \<and> checkPolygon Q m = Inl (InvalidPolygonError negativeMessage)"
proof -
  have fz: "list_all finitePoint (map zeroedPoint P)"
    using assms(1) by (auto simp: list_all_iff finitePoint_def zeroedPoint_def finite_zeroed)
  have rz: "map roundPoint (map zeroedPoint P) = map roundPoint P"
    by (simp add: roundPoint_def zeroedPoint_def round_zeroed)
  have same: "checkPolygon P m = checkPolygon (map zeroedPoint P) m"
    unfolding checkPolygon_finite [OF assms(1)] checkPolygon_finite [OF fz] rz ..
  have "\<not> list_ex negativePoint (map roundPoint P)"
    using assms(1,2)
    by (auto simp: list_ex_iff list_all_iff negativePoint_def roundPoint_def finitePoint_def
        belowMinusHalfPoint_def round_not_negative)
  then have acc: "checkPolygon P m \<noteq> Inl (InvalidPolygonError negativeMessage)"
    unfolding checkPolygon_finite [OF assms(1)] Let_def
    using messages_distinct by auto
  have "list_ex negativePoint (map roundPoint Q)"
    using assms(3,4)
    by (auto simp: list_ex_iff list_all_iff negativePoint_def roundPoint_def finitePoint_def
        belowMinusHalfPoint_def intro: round_negative)
  then have rej: "checkPolygon Q m = Inl (InvalidPolygonError negativeMessage)"
    unfolding checkPolygon_finite [OF assms(3)] Let_def by simp
  show ?thesis using same acc rej round_slightlyNegative by blast
qed

theorem checkPolygon_rounding_precedes_sign_check_witness:
  "slightlyNegative (Num (- 1 / 2)) \<and> Math_round (Num (- 1 / 2)) = Num 0
   \<and> list_all finitePoint
       [(Num (- 1 / 2), Num 0), (Num 5, Num (- 1 / 4)), (Num 5, Num 5), (Num 0, Num 5)]
   \<and> checkPolygon
       [(Num (- 1 / 2), Num 0), (Num 5, Num (- 1 / 4)), (Num 5, Num 5), (Num 0, Num 5)]
       POLYGON_MIN_SIZE
     = Inr [(Num 0, Num 0), (Num 5, Num 0), (Num 5, Num 5), (Num 0, Num 5)]
   \<and> list_ex belowMinusHalfPoint
       [(Num (- 3 / 5), Num 0), (Num 5, Num 0), (Num 5, Num 5), (Num 0, Num 5)]
   \<and> checkPolygon
       [(Num (- 3 / 5), Num 0), (Num 5, Num 0), (Num 5, Num 5), (Num 0, Num 5)]
       POLYGON_MIN_SIZE
     = Inl (InvalidPolygonError negativeMessage)"
proof -
  let ?P = "[(Num (- 1 / 2), Num 0), (Num 5, Num (- 1 / 4)), (Num 5, Num 5), (Num 0, Num 5)]"
  let ?Q = "[(Num (- 3 / 5), Num 0), (Num 5, Num 0), (Num 5, Num 5), (Num 0, Num 5)]"
  have s: "slightlyNegative (Num (- 1 / 2))" by code_simp
  have p1: "list_all finitePoint ?P" by code_simp
  have p2: "\<not> list_ex belowMinusHalfPoint ?P" by code_simp
  have q1: "list_all finitePoint ?Q" by code_simp
  have q2: "list_ex belowMinusHalfPoint ?Q" by code_simp
  have z: "checkPolygon (map zeroedPoint ?P) POLYGON_MIN_SIZE
     = Inr [(Num 0, Num 0), (Num 5, Num 0), (Num 5, Num 5), (Num 0, Num 5)]" by code_simp
  from checkPolygon_rounding_precedes_sign_check [OF p1 p2 q1 q2, of "Num (- 1 / 2)" POLYGON_MIN_SIZE]
  show ?thesis using s p1 q2 z by simp
qed

lemma nonNegative_not_negative: "nonNegativePoint p \<Longrightarrow> \<not> negativePoint p"
  by (simp add: nonNegativePoint_def negativePoint_def jsGreaterEq_def)

lemma checkPolygon_too_many:
  assumes "list_all finitePoint P" and "\<not> list_ex negativePoint (map roundPoint P)"
    and "distinct (map roundPoint P)" and "165 \<le> length P"
  shows "checkPolygon P m = Inl (InvalidPolygonError tooManyMessage)"
proof -
  have np: "remdups_adj (map roundPoint P) = map roundPoint P"
    by (rule remdups_adj_distinct [OF assms(3)])
  have ne: "map roundPoint P \<noteq> []" using assms(4) by auto
  show ?thesis
    unfolding checkPolygon_finite [OF assms(1)] Let_def np
    using assms(2,4) ne by simp
qed

lemma length_diagonal: "length (diagonal n) = n"
  by (simp add: diagonal_def)

lemma integer_diagonal: "list_all integerPoint (diagonal n)"
  by (simp add: diagonal_def list_all_iff integerPoint_def)

lemma nonNegative_diagonal: "list_all nonNegativePoint (diagonal n)"
  by (simp add: diagonal_def list_all_iff nonNegativePoint_def jsGreaterEq_def)

lemma distinct_diagonal: "distinct (diagonal n)"
  by (simp add: diagonal_def distinct_map inj_on_def)

lemma round_diagonal: "map roundPoint (diagonal n) = diagonal n"
  using integer_diagonal [of n] by (intro map_idI) (auto simp: list_all_iff roundPoint_integer)

lemma finite_diagonal: "list_all finitePoint (diagonal n)"
  using integer_diagonal [of n] by (auto simp: list_all_iff integerPoint_finite)

lemma getSize_diagonal:
  "getSize (diagonal (Suc k)) = (Num (of_nat k), Num (of_nat k))"
proof -
  have ne: "diagonal (Suc k) \<noteq> []" using length_diagonal [of "Suc k"] by auto
  have x: "xsOf (diagonal (Suc k)) = of_nat ` {0..<Suc k}"
    and y: "ysOf (diagonal (Suc k)) = of_nat ` {0..<Suc k}"
    by (auto simp: xsOf_def ysOf_def diagonal_def image_image)
  have "(of_nat k :: rat) \<in> of_nat ` {0..<Suc k}" by (rule imageI) simp
  then have mx: "Max (of_nat ` {0..<Suc k} :: rat set) = of_nat k"
    by (intro Max_eqI) auto
  have "(0 :: rat) \<in> of_nat ` {0..<Suc k}" by (rule image_eqI [of _ _ 0]) simp_all
  then have mn: "Min (of_nat ` {0..<Suc k} :: rat set) = 0"
    by (intro Min_eqI) auto
  show ?thesis
    by (simp add: getSize_finite [OF finite_diagonal ne] x y mx mn)
qed

text \<open>
  C4 (amended). A polygon with at least three distinct points, non-negative integer
  coordinates, a bounding width and height of at least \<open>minSize\<close>, and at most 163
  points once adjacent duplicates are removed (164 when the first and the last point are
  equal) is accepted: \<open>checkPolygon\<close> returns it without its adjacent duplicates, and
  checking the result again returns the same result. The bound on the number of points
  is needed: the diagonal of 165 points satisfies every other hypothesis and is refused.
\<close>

theorem checkPolygon_succeeds_idempotent:
  assumes "3 \<le> card (set P)" and "list_all integerPoint P" and "list_all nonNegativePoint P"
    and "jsGreaterEq (fst (getSize P)) minSize" and "jsGreaterEq (snd (getSize P)) minSize"
    and "length (remdups_adj P) \<le> 163 \<or> (length (remdups_adj P) = 164 \<and> hd P = last P)"
  shows "checkPolygon P minSize = Inr (remdups_adj P)
       \<and> checkPolygon (remdups_adj P) minSize = checkPolygon P minSize"
proof -
  have fP: "list_all finitePoint P"
    using assms(2) by (auto simp: list_all_iff integerPoint_finite)
  have R: "map roundPoint P = P"
    using assms(2) by (intro map_idI) (auto simp: list_all_iff roundPoint_integer)
  have neg: "\<not> list_ex negativePoint P"
    using assms(3) by (auto simp: list_all_iff list_ex_iff nonNegative_not_negative)
  have ne: "P \<noteq> []" using assms(1) by auto
  then have ne': "remdups_adj P \<noteq> []" by simp
  have len: "\<not> length (remdups_adj P)
               < 3 + (if hd (remdups_adj P) = last (remdups_adj P) then 1 else 0)"
    using assms(1) by (intro length_closed_list) simp
  have many: "\<not> (length (remdups_adj P) > 164
               \<or> (length (remdups_adj P) = 164 \<and> hd (remdups_adj P) \<noteq> last (remdups_adj P)))"
    using assms(6) by (auto simp: hd_remdups_adj last_remdups_adj)
  have size: "getSize (remdups_adj P) = getSize P"
    using fP ne by (intro getSize_cong_set) simp_all
  have big: "\<not> (jsLess (snd (getSize P)) minSize \<or> jsLess (fst (getSize P)) minSize)"
    using assms(4,5) by (simp add: jsGreaterEq_def)
  have ok: "checkPolygon P minSize = Inr (remdups_adj P)"
    unfolding checkPolygon_finite [OF fP] Let_def R
    using neg ne' len many big by (simp only: size if_False)
  show ?thesis using ok checkPolygon_idem [OF ok] by simp
qed

theorem checkPolygon_succeeds_idempotent_witness:
  "checkPolygon [(Num 0, Num 0), (Num 5, Num 0), (Num 5, Num 0), (Num 5, Num 5), (Num 0, Num 5),
        (Num 0, Num 0)] POLYGON_MIN_SIZE
     = Inr [(Num 0, Num 0), (Num 5, Num 0), (Num 5, Num 5), (Num 0, Num 5), (Num 0, Num 0)]
   \<and> checkPolygon [(Num 0, Num 0), (Num 5, Num 0), (Num 5, Num 5), (Num 0, Num 5), (Num 0, Num 0)]
        POLYGON_MIN_SIZE
     = Inr [(Num 0, Num 0), (Num 5, Num 0), (Num 5, Num 5), (Num 0, Num 5), (Num 0, Num 0)]"
proof -
  let ?P = "[(Num 0, Num 0), (Num 5, Num 0), (Num 5, Num 0), (Num 5, Num 5), (Num 0, Num 5),
        (Num 0, Num 0)]"
  have h1: "3 \<le> card (set ?P)" by code_simp
  have h2: "list_all integerPoint ?P" by code_simp
  have h3: "list_all nonNegativePoint ?P" by code_simp
  have h4: "jsGreaterEq (fst (getSize ?P)) POLYGON_MIN_SIZE" by code_simp
  have h5: "jsGreaterEq (snd (getSize ?P)) POLYGON_MIN_SIZE" by code_simp
  have h6: "length (remdups_adj ?P) \<le> 163 \<or> (length (remdups_adj ?P) = 164 \<and> hd ?P = last ?P)"
    by simp
  from checkPolygon_succeeds_idempotent [OF h1 h2 h3 h4 h5 h6]
  show ?thesis by simp
qed

theorem checkPolygon_succeeds_counterexample:
  "3 \<le> card (set (diagonal 165))
   \<and> list_all integerPoint (diagonal 165)
   \<and> list_all nonNegativePoint (diagonal 165)
   \<and> jsGreaterEq (fst (getSize (diagonal 165))) POLYGON_MIN_SIZE
   \<and> jsGreaterEq (snd (getSize (diagonal 165))) POLYGON_MIN_SIZE
   \<and> checkPolygon (diagonal 165) POLYGON_MIN_SIZE = Inl (InvalidPolygonError tooManyMessage)"
proof -
  have c: "card (set (diagonal 165)) = 165"
    by (simp add: distinct_card [OF distinct_diagonal] length_diagonal)
  have neg: "\<not> list_ex negativePoint (map roundPoint (diagonal 165))"
    using nonNegative_diagonal [of 165]
    by (auto simp: round_diagonal list_all_iff list_ex_iff nonNegative_not_negative)
  have d: "distinct (map roundPoint (diagonal 165))"
    by (simp add: round_diagonal distinct_diagonal)
  have "checkPolygon (diagonal 165) POLYGON_MIN_SIZE = Inl (InvalidPolygonError tooManyMessage)"
    by (rule checkPolygon_too_many [OF finite_diagonal neg d]) (simp add: length_diagonal)
  then show ?thesis
    using c integer_diagonal [of 165] nonNegative_diagonal [of 165]
    using getSize_diagonal [of 164] by (simp add: POLYGON_MIN_SIZE_def jsGreaterEq_def)
qed

lemma mono_round: "mono (\<lambda>r :: rat. (of_int \<lfloor>r + 1 / 2\<rfloor> :: rat))"
  by (auto simp: mono_def intro!: floor_mono)

lemma spread_round:
  fixes S :: "rat set"
  assumes "finite S" and "S \<noteq> {}" and "Max S - Min S = 1"
  shows "Max ((\<lambda>r. of_int \<lfloor>r + 1 / 2\<rfloor>) ` S) - Min ((\<lambda>r. of_int \<lfloor>r + 1 / 2\<rfloor>) ` S) = (1 :: rat)"
proof -
  let ?f = "\<lambda>r :: rat. (of_int \<lfloor>r + 1 / 2\<rfloor> :: rat)"
  have mx: "Max (?f ` S) = ?f (Max S)"
    by (rule mono_Max_commute [OF mono_round assms(1,2), symmetric])
  have mn: "Min (?f ` S) = ?f (Min S)"
    by (rule mono_Min_commute [OF mono_round assms(1,2), symmetric])
  have "Max S = Min S + 1" using assms(3) by simp
  have step: "\<lfloor>x + 1 + 1 / 2\<rfloor> = \<lfloor>x + 1 / 2\<rfloor> + 1" for x :: rat
  proof -
    have "x + 1 + 1 / 2 = (x + 1 / 2) + of_int 1" by simp
    then show ?thesis by (simp only: floor_add_int)
  qed
  have "?f (Min S + 1) = ?f (Min S) + 1"
    by (simp only: step of_int_add of_int_1)
  then have "?f (Max S) = ?f (Min S) + 1"
    by (simp only: \<open>Max S = Min S + 1\<close>)
  then show ?thesis by (simp add: mx mn)
qed

lemma xsOf_round:
  assumes "list_all finitePoint Q"
  shows "xsOf (map roundPoint Q) = (\<lambda>r. of_int \<lfloor>r + 1 / 2\<rfloor>) ` xsOf Q"
    and "ysOf (map roundPoint Q) = (\<lambda>r. of_int \<lfloor>r + 1 / 2\<rfloor>) ` ysOf Q"
proof -
  have "\<And>p. p \<in> set Q \<Longrightarrow> theRat (Math_round (fst p)) = of_int \<lfloor>theRat (fst p) + 1 / 2\<rfloor>
                           \<and> theRat (Math_round (snd p)) = of_int \<lfloor>theRat (snd p) + 1 / 2\<rfloor>"
    using assms by (auto simp: list_all_iff finitePoint_def isFinite_iff)
  then show "xsOf (map roundPoint Q) = (\<lambda>r. of_int \<lfloor>r + 1 / 2\<rfloor>) ` xsOf Q"
    and "ysOf (map roundPoint Q) = (\<lambda>r. of_int \<lfloor>r + 1 / 2\<rfloor>) ` ysOf Q"
    by (auto simp: xsOf_def ysOf_def roundPoint_def image_image intro!: image_cong)
qed

lemma checkPolygon_unit_box:
  assumes "getSize Q = (Num 1, Num 1)"
  shows "isl (checkPolygon Q (Num 2))"
proof (cases "list_all finitePoint Q")
  case False
  then show ?thesis using checkPolygon_not_finite [of Q "Num 2"] by auto
next
  case fQ: True
  show ?thesis
  proof (cases "Q = []")
    case True
    then show ?thesis by (simp add: checkPolygon_def dedup.simps)
  next
    case ne: False
    define R where "R = map roundPoint Q"
    have fR: "list_all finitePoint R" and neR: "R \<noteq> []"
      using fQ ne by (auto simp: R_def list_all_iff finite_roundPoint)
    have "Max (xsOf Q) - Min (xsOf Q) = 1"
      using assms by (simp add: getSize_finite [OF fQ ne])
    moreover have "finite (xsOf Q)" "xsOf Q \<noteq> {}" using ne by (auto simp: xsOf_def)
    ultimately have "Max (xsOf R) - Min (xsOf R) = 1"
      unfolding R_def xsOf_round(1) [OF fQ] by (intro spread_round)
    then have "fst (getSize R) = Num 1" by (simp add: getSize_finite [OF fR neR])
    moreover have "getSize (remdups_adj R) = getSize R"
      using fR neR by (intro getSize_cong_set) simp_all
    ultimately have "jsLess (fst (getSize (remdups_adj R))) (Num 2)" by simp
    then show ?thesis
      unfolding checkPolygon_finite [OF fQ] Let_def R_def [symmetric] by simp
  qed
qed

lemma nanPoint_not_finitePoint: "nanPoint p \<Longrightarrow> \<not> finitePoint p"
  by (auto simp: nanPoint_def finitePoint_def)

lemma nanPoint_not_finite: "list_ex nanPoint N \<Longrightarrow> \<not> list_all finitePoint N"
  using nanPoint_not_finitePoint by (auto simp: list_ex_iff list_all_iff)

lemma checkPolygon_result_length:
  assumes "checkPolygon A m = Inr r"
  shows "length r \<le> 163 \<or> (length r = 164 \<and> hd r = last r)"
proof -
  have fA: "list_all finitePoint A" by (rule checkPolygon_Inr_finite [OF assms])
  show ?thesis
    using assms unfolding checkPolygon_finite [OF fA] Let_def
    by (auto split: if_splits)
qed

lemma checkPolygon_two_points:
  "checkPolygon [(Num 0, Num 0), (Num 5, Num 5)] m = Inl (InvalidPolygonError tooFewMessage)"
proof -
  have f: "list_all finitePoint [(Num 0, Num 0), (Num 5, Num 5)]" by (simp add: finitePoint_def)
  have r: "map roundPoint [(Num 0, Num 0), (Num 5, Num 5)] = [(Num 0, Num 0), (Num 5, Num 5)]"
    using floor_half_int [of 0] floor_half_int [of 5] by (simp add: roundPoint_def)
  show ?thesis
    unfolding checkPolygon_finite [OF f] Let_def r
    by (simp add: negativePoint_def)
qed

lemma round_crowded:
  assumes "i < 500"
  shows "roundPoint (Num (of_nat i / 1000), Num 10) = (Num 0, Num 10)"
proof -
  have "\<lfloor>(of_nat i / 1000 :: rat) + 1 / 2\<rfloor> = 0"
    using assms by (intro floor_unique) auto
  then show ?thesis using floor_half_int [of 10] by (simp add: roundPoint_def)
qed

lemma round_crowdedSquare:
  "map roundPoint crowdedSquare
   = [(Num 0, Num 0), (Num 10, Num 0), (Num 10, Num 10)] @ replicate 162 (Num 0, Num 10)"
proof -
  have "map (\<lambda>i. roundPoint (Num (of_nat i / 1000), Num 10)) [1..<163]
        = map (\<lambda>i. (Num 0, Num 10)) [1..<163]"
    by (rule map_cong) (auto simp: round_crowded)
  also have "\<dots> = replicate 162 (Num 0, Num 10)" by (simp add: map_replicate_const)
  finally show ?thesis
    using floor_half_int [of 0] floor_half_int [of 10]
    by (simp add: crowdedSquare_def roundPoint_def o_def)
qed

lemma remdups_crowdedSquare:
  "remdups_adj (map roundPoint crowdedSquare)
   = [(Num 0, Num 0), (Num 10, Num 0), (Num 10, Num 10), (Num 0, Num 10)]"
proof -
  have "replicate 162 (Num 0, Num 10 :: number) = (Num 0, Num 10) # replicate 161 (Num 0, Num 10)"
    by (simp add: replicate_Suc [symmetric] del: replicate_Suc)
  moreover have "remdups_adj ((Num 0, Num 10 :: number) # replicate 161 (Num 0, Num 10))
                 = [(Num 0, Num 10)]"
    using remdups_adj_replicate [of 162 "(Num 0, Num 10 :: number)"]
    by (simp add: replicate_Suc [symmetric] del: replicate_Suc)
  ultimately show ?thesis by (simp add: round_crowdedSquare)
qed

text \<open>
  C5 (amended). \<open>checkPolygon\<close> fails on the two points \<open>[[0,0],[5,5]]\<close>; on
  every input of 165 points that are still pairwise distinct once rounded (so on 165
  distinct points with integer coordinates); on every polygon whose bounding box is 1 by 1
  when the minimal size is 2; and on every polygon with a NaN coordinate. A polygon it
  returns has at most 163 points, or 164 with the first equal to the last. The 165 points
  have to be distinct after the rounding: \<open>crowdedSquare\<close> has 165 distinct points
  and is accepted, because 162 of them round to the same corner.
\<close>

theorem checkPolygon_refusals:
  assumes "length P = 165" and "distinct (map roundPoint P)"
    and "getSize Q = (Num 1, Num 1)"
    and "list_ex nanPoint N"
    and "checkPolygon A m = Inr r"
  shows "checkPolygon [(Num 0, Num 0), (Num 5, Num 5)] m = Inl (InvalidPolygonError tooFewMessage)
       \<and> isl (checkPolygon P m)
       \<and> isl (checkPolygon Q (Num 2))
       \<and> isl (checkPolygon N m)
       \<and> (length r \<le> 163 \<or> (length r = 164 \<and> hd r = last r))"
proof -
  have p: "isl (checkPolygon P m)"
  proof (cases "list_all finitePoint P")
    case False
    then show ?thesis using checkPolygon_not_finite [of P m] by auto
  next
    case fP: True
    show ?thesis
    proof (cases "list_ex negativePoint (map roundPoint P)")
      case True
      then show ?thesis by (simp add: checkPolygon_finite [OF fP])
    next
      case False
      then show ?thesis using checkPolygon_too_many [OF fP False assms(2)] assms(1) by simp
    qed
  qed
  have n: "isl (checkPolygon N m)"
    using checkPolygon_not_finite [OF nanPoint_not_finite [OF assms(4)], of m] by auto
  show ?thesis
    using checkPolygon_two_points p checkPolygon_unit_box [OF assms(3)] n
      checkPolygon_result_length [OF assms(5)]
    by simp
qed


theorem checkPolygon_refusals_witness:
  "length (diagonal 165) = 165
   \<and> isl (checkPolygon (diagonal 165) POLYGON_MIN_SIZE)
   \<and> getSize [(Num 3, Num 3), (Num 4, Num 3), (Num 4, Num 4), (Num 3, Num 4)] = (Num 1, Num 1)
   \<and> isl (checkPolygon [(Num 3, Num 3), (Num 4, Num 3), (Num 4, Num 4), (Num 3, Num 4)] (Num 2))
   \<and> isl (checkPolygon [(Num 0, Num 0), (Num 5, NaN), (Num 5, Num 5)] POLYGON_MIN_SIZE)
   \<and> checkPolygon [(Num 0, Num 0), (Num 5, Num 0), (Num 5, Num 5)] POLYGON_MIN_SIZE
       = Inr [(Num 0, Num 0), (Num 5, Num 0), (Num 5, Num 5)]"
proof -
  let ?Q = "[(Num 3, Num 3), (Num 4, Num 3), (Num 4, Num 4), (Num 3, Num 4)]"
  let ?N = "[(Num 0, Num 0), (Num 5, NaN), (Num 5, Num 5)]"
  let ?A = "[(Num 0, Num 0), (Num 5, Num 0), (Num 5, Num 5)]"
  have h1: "length (diagonal 165) = 165" by (rule length_diagonal)
  have h2: "distinct (map roundPoint (diagonal 165))"
    by (simp add: round_diagonal distinct_diagonal)
  have h3: "getSize ?Q = (Num 1, Num 1)" by code_simp
  have h4: "list_ex nanPoint ?N" by code_simp
  have h5: "checkPolygon ?A POLYGON_MIN_SIZE = Inr ?A" by code_simp
  from checkPolygon_refusals [OF h1 h2 h3 h4 h5]
  show ?thesis using h1 h3 h5 by simp
qed

theorem checkPolygon_refusals_counterexample:
  "length crowdedSquare = 165
   \<and> distinct crowdedSquare
   \<and> checkPolygon crowdedSquare POLYGON_MIN_SIZE
       = Inr [(Num 0, Num 0), (Num 10, Num 0), (Num 10, Num 10), (Num 0, Num 10)]"
proof -
  have l: "length crowdedSquare = 165" by (simp add: crowdedSquare_def)
  have d: "distinct crowdedSquare"
    by (auto simp: crowdedSquare_def distinct_map inj_on_def)
  have f: "list_all finitePoint crowdedSquare"
    by (simp add: crowdedSquare_def list_all_iff finitePoint_def)
  have n: "\<not> list_ex negativePoint (map roundPoint crowdedSquare)"
    by (simp add: round_crowdedSquare list_ex_iff negativePoint_def)
  have s: "getSize [(Num 0, Num 0), (Num 10, Num 0), (Num 10, Num 10), (Num 0, Num 10)]
           = (Num 10, Num 10)" by code_simp
  have "checkPolygon crowdedSquare POLYGON_MIN_SIZE
       = Inr [(Num 0, Num 0), (Num 10, Num 0), (Num 10, Num 10), (Num 0, Num 10)]"
    unfolding checkPolygon_finite [OF f] Let_def remdups_crowdedSquare
    using n by (simp add: s POLYGON_MIN_SIZE_def)
  then show ?thesis using l d by simp
qed

text \<open>
  C6 (amended). A failure of \<open>checkPolygon\<close> on a non-empty polygon of finite points
  is an \<open>InvalidPolygonError\<close> whose message is one of four different texts, and the
  text tells the rule that failed: a negative rounded coordinate, fewer than three
  distinct points, more than 163 distinct points, or a bounding box below the minimal
  size. A polygon with a point that is not finite is refused with a \<open>TypeError\<close>
  naming the first such point, not with an \<open>InvalidPolygonError\<close>.
\<close>

theorem checkPolygon_error_classified:
  assumes "checkPolygon P m = Inl e" and "P \<noteq> []"
  shows "distinct [negativeMessage, tooFewMessage, tooManyMessage, tooSmallMessage]
     \<and> (if list_all finitePoint P
        then (let R = map roundPoint P; np = remdups_adj R in
               (e = InvalidPolygonError negativeMessage \<and> list_ex negativePoint R)
             \<or> (e = InvalidPolygonError tooFewMessage
                 \<and> length np < 3 + (if hd np = last np then 1 else 0))
             \<or> (e = InvalidPolygonError tooManyMessage
                 \<and> (164 < length np \<or> (length np = 164 \<and> hd np \<noteq> last np)))
             \<or> (e = InvalidPolygonError tooSmallMessage
                 \<and> (jsLess (snd (getSize np)) m \<or> jsLess (fst (getSize np)) m)))
        else (\<exists>i<length P. \<not> finitePoint (P ! i) \<and> (\<forall>j<i. finitePoint (P ! j))
                \<and> e = TypeErrorPoint i (P ! i)))"
proof (cases "list_all finitePoint P")
  case False
  from checkPolygon_not_finite [OF False, of m] assms(1) False messages_distinct
  show ?thesis by auto
next
  case fP: True
  have "remdups_adj (map roundPoint P) \<noteq> []" using assms(2) by simp
  then show ?thesis
    using assms(1) fP messages_distinct
    unfolding checkPolygon_finite [OF fP] Let_def
    by (auto split: if_splits)
qed

theorem checkPolygon_error_classified_witness:
  "checkPolygon [(Num 0, Num 0), (Num 1, Num 0), (Num 1, Num 1), (Num 0, Num 1)] POLYGON_MIN_SIZE
     = Inl (InvalidPolygonError tooSmallMessage)
   \<and> getSize [(Num 0, Num 0), (Num 1, Num 0), (Num 1, Num 1), (Num 0, Num 1)] = (Num 1, Num 1)
   \<and> jsLess (Num 1) POLYGON_MIN_SIZE"
proof -
  let ?P = "[(Num 0, Num 0), (Num 1, Num 0), (Num 1, Num 1), (Num 0, Num 1)]"
  have h1: "checkPolygon ?P POLYGON_MIN_SIZE = Inl (InvalidPolygonError tooSmallMessage)"
    by code_simp
  have h2: "?P \<noteq> []" by simp
  have s: "getSize ?P = (Num 1, Num 1)" by code_simp
  from checkPolygon_error_classified [OF h1 h2]
  show ?thesis using h1 s by (simp add: POLYGON_MIN_SIZE_def)
qed

theorem checkPolygon_error_classified_counterexample:
  "checkPolygon [(NaN, Num 0), (Num 5, Num 0), (Num 5, Num 5)] POLYGON_MIN_SIZE
     = Inl (TypeErrorPoint 0 (NaN, Num 0))"
  by code_simp

section \<open>Properties of \<open>checkImageSize\<close>\<close>




section \<open>Behaviour of \<open>iiifUri\<close> where both bounds reach the box\<close>

text \<open>
  C9. The source comments \<open>iiifUri\<close> with "when both the specified maximum width and
  height are greater than or equal to the image's size, just use full", which is what the
  specification states. For a 100 by 100 image without polygon and the bounds 200 by 100, both
  bounds reach the box, yet the result is not \<open>full\<close>: exactly one bound is strictly
  greater than the box, so both bounds are first divided by 2, and the size clause is
  \<open>!100,50\<close>.
\<close>

theorem iiifUri_bounds_reached_rescaled:
  "iiifUri other
     \<lparr>polygon = None,
      image = Some \<lparr>width = Num 100, height = Num 100, url = ''http://x/img''\<rparr>\<rparr>
     (Some (Num 200)) (Some (Num 100))
   = Inr ''http://x/img/full/!100,50/0/default.jpg''"
  by code_simp

text \<open>The example of the specification, and a rescaling that rounds a bound to 0: the
  size clause then has no \<open>!\<close> although both bounds were given.\<close>

lemma iiifUri_width_only:
  "iiifUri other
     \<lparr>polygon = None,
      image = Some \<lparr>width = Num 100, height = Num 100, url = ''http://x/img''\<rparr>\<rparr>
     (Some (Num 50)) None
   = Inr ''http://x/img/full/50,/0/default.jpg''"
  by code_simp

lemma iiifUri_height_rounded_to_zero:
  "iiifUri other
     \<lparr>polygon = None,
      image = Some \<lparr>width = Num 100, height = Num 100, url = ''http://x/img''\<rparr>\<rparr>
     (Some (Num 1000)) (Some (Num 1))
   = Inr ''http://x/img/full/100,0/0/default.jpg''"
  by code_simp

section \<open>Properties of the list of children\<close>

lemma findIndex_Some:
  "findIndex f as = int k \<Longrightarrow> k < length as \<and> f (as ! k) \<and> (\<forall>j<k. \<not> f (as ! j))"
proof (induction as arbitrary: k)
  case Nil
  then show ?case by simp
next
  case (Cons a as)
  show ?case
  proof (cases "f a")
    case True
    then show ?thesis using Cons.prems by simp
  next
    case False
    then have nn: "\<not> findIndex f as < 0" and k: "int k = findIndex f as + 1"
      using Cons.prems by (auto simp: Let_def split: if_splits)
    define k' where "k' = nat (findIndex f as)"
    have k': "k = Suc k'" "findIndex f as = int k'"
      using nn k by (simp_all add: k'_def)
    from Cons.IH [OF k'(2)] False show ?thesis
      by (auto simp: k'(1) nth_Cons split: nat.splits)
  qed
qed

lemma findIndex_range: "- 1 \<le> findIndex f as"
  by (induction as) (auto simp: Let_def)

lemma removeSelected_frame:
  "parsedChildren (removeSelected i force st) = parsedChildren st
   \<and> highlighted (removeSelected i force st) = highlighted st
   \<and> hovered (removeSelected i force st) = hovered st
   \<and> parsedElement (removeSelected i force st) = parsedElement st
   \<and> (editedId st \<noteq> Some i \<longrightarrow> editedElement (removeSelected i force st) = editedElement st)
   \<and> (editedElement (removeSelected i force st) = editedElement st
        \<or> editedElement (removeSelected i force st) = None)"
proof (induction i force st rule: removeSelected.induct)
  case (1 i force st)
  show ?case
  proof (cases "i \<notin> set (selected st) \<or> (\<not> force \<and> mode st \<noteq> SELECT_MODE)")
    case True
    then show ?thesis by (simp add: removeSelected.simps)
  next
    case False
    define st1 where "st1 = st\<lparr>selected := remove1 i (selected st),
                       events := events st @ [UnselectElement i]\<rparr>"
    define st2 where "st2 = removeSelected i True st1"
    have r: "removeSelected i force st
             = (if editedId st2 = Some i then st2\<lparr>editedElement := None\<rparr> else st2)"
      using False by (subst removeSelected.simps) (auto simp: Let_def st1_def st2_def)
    have IH: "parsedChildren st2 = parsedChildren st1
       \<and> highlighted st2 = highlighted st1 \<and> hovered st2 = hovered st1
       \<and> parsedElement st2 = parsedElement st1
       \<and> (editedId st1 \<noteq> Some i \<longrightarrow> editedElement st2 = editedElement st1)
       \<and> (editedElement st2 = editedElement st1 \<or> editedElement st2 = None)"
      unfolding st2_def st1_def using False by (intro "1.IH") auto
    have e1: "editedElement st1 = editedElement st" "editedId st1 = editedId st"
      "parsedChildren st1 = parsedChildren st" "highlighted st1 = highlighted st"
      "hovered st1 = hovered st" "parsedElement st1 = parsedElement st"
      by (simp_all add: st1_def editedId_def)
    show ?thesis
    proof (cases "editedId st2 = Some i")
      case True
      have "editedId st \<noteq> Some i \<longrightarrow> False"
        using IH e1 True by (auto simp: editedId_def)
      then show ?thesis using IH e1 True unfolding r by simp
    next
      case False
      then show ?thesis using IH e1 unfolding r by simp
    qed
  qed
qed

lemma removeSelected_clears:
  "i \<notin> set (selected (removeSelected i True st))"
proof (induction i "True" st rule: removeSelected.induct)
  case (1 i st)
  show ?case
  proof (cases "i \<in> set (selected st)")
    case False
    then show ?thesis by (simp add: removeSelected.simps)
  next
    case True
    define st1 where "st1 = st\<lparr>selected := remove1 i (selected st),
                       events := events st @ [UnselectElement i]\<rparr>"
    have "i \<notin> set (selected (removeSelected i True st1))"
      unfolding st1_def using True by (intro "1.hyps") auto
    moreover have "selected (removeSelected i True st)
                   = selected (removeSelected i True st1)"
      using True by (subst removeSelected.simps) (simp add: Let_def st1_def)
    ultimately show ?thesis by simp
  qed
qed

text \<open>
  C1 (amended). The listener of \<open>delete-element\<close> splices the slot out of the list
  of children. For an id that the list holds, the first slot with that id is removed:
  the list is one shorter, the slots before it keep their index, the slots after it move
  down by one, and every other region keeps its id and its place in the order. The id is
  no longer selected, the edited element is cleared when it had that id and kept
  otherwise, and the highlighted and hovered ids are left as they were.
\<close>

theorem deleteElement_removes_slot:
  assumes "getChildIndex st i = int k"
  shows "k < length (parsedChildren st)
       \<and> map_option elementId (parsedChildren st ! k) = Some i
       \<and> parsedChildren (deleteElement i st)
           = take k (parsedChildren st) @ drop (Suc k) (parsedChildren st)
       \<and> length (parsedChildren (deleteElement i st)) = length (parsedChildren st) - 1
       \<and> i \<notin> set (selected (deleteElement i st))
       \<and> editedId (deleteElement i st) \<noteq> Some i
       \<and> (editedId st \<noteq> Some i \<longrightarrow> editedElement (deleteElement i st) = editedElement st)
       \<and> highlighted (deleteElement i st) = highlighted st
       \<and> hovered (deleteElement i st) = hovered st"
proof -
  define st1 where "st1 = removeSelected i True st"
  define st2 where
    "st2 = st1\<lparr>parsedChildren := spliceOne (getChildIndex st1 i) (parsedChildren st1)\<rparr>"
  have d: "deleteElement i st
           = (if editedId st2 = Some i then st2\<lparr>editedElement := None\<rparr> else st2)"
    by (simp add: deleteElement_def Let_def st1_def st2_def)
  have fr: "parsedChildren st1 = parsedChildren st" "highlighted st1 = highlighted st"
    "hovered st1 = hovered st"
    "editedId st \<noteq> Some i \<longrightarrow> editedElement st1 = editedElement st"
    using removeSelected_frame [of i True st] by (simp_all add: st1_def)
  have gi: "getChildIndex st1 i = int k" using assms fr(1) by (simp add: getChildIndex_def)
  from findIndex_Some [OF assms [unfolded getChildIndex_def]]
  have k: "k < length (parsedChildren st)"
    "map_option elementId (parsedChildren st ! k) = Some i" by auto
  have sp: "parsedChildren st2 = take k (parsedChildren st) @ drop (Suc k) (parsedChildren st)"
    using k(1) by (simp add: st2_def gi fr(1) spliceOne_def Let_def)
  have sel: "i \<notin> set (selected st1)" unfolding st1_def by (rule removeSelected_clears)
  have e2: "editedElement st2 = editedElement st1" "selected st2 = selected st1"
    "highlighted st2 = highlighted st1" "hovered st2 = hovered st1"
    by (simp_all add: st2_def)
  have len: "length (take k (parsedChildren st) @ drop (Suc k) (parsedChildren st))
             = length (parsedChildren st) - 1"
    using k(1) by simp
  have ed: "editedId st2 = editedId st1" "editedId st \<noteq> Some i \<longrightarrow> editedId st1 = editedId st"
    "editedId (st2\<lparr>editedElement := None\<rparr>) = None"
    using e2(1) fr(4) by (simp_all add: editedId_def)
  show ?thesis
  proof (cases "editedId st2 = Some i")
    case True
    then have "editedId st = Some i" using ed by auto
    then show ?thesis
      unfolding d using True k sp sel e2 fr(1-3) len ed(3) by simp
  next
    case False
    then show ?thesis
      unfolding d using k sp sel e2 fr len by simp
  qed
qed


theorem deleteElement_removes_slot_witness:
  "getChildIndex (regions 5) (NumId 3) = 2
   \<and> length (parsedChildren (deleteElement (NumId 3) (regions 5))) = 4
   \<and> NumId 3 \<notin> set (selected (deleteElement (NumId 3) (regions 5)))
   \<and> editedElement (deleteElement (NumId 3) (regions 5)) = None"
proof -
  have h: "getChildIndex (regions 5) (NumId 3) = int 2" by code_simp
  have l: "length (parsedChildren (regions 5)) = 5" by code_simp
  have e: "editedElement (regions 5) = None" by (simp add: regions_def)
  from deleteElement_removes_slot [OF h]
  show ?thesis using h l e by (simp add: editedId_def)
qed

theorem deleteElement_removes_slot_counterexample:
  "length (parsedChildren (regions 5)) = 5
   \<and> parsedChildren (deleteElement (NumId 3) (regions 5))
       = [squareRegion 1, squareRegion 2, squareRegion 4, squareRegion 5]
   \<and> highlighted (regions 5) = [NumId 3]
   \<and> highlighted (deleteElement (NumId 3) (regions 5)) = [NumId 3]"
  by code_simp

section \<open>Properties of \<open>create\<close> and \<open>saveEdited\<close>\<close>

















lemma edit_no_action: "edit pos None st = (None, st)"
  by (simp add: edit_def)

text \<open>
  C3 (amended). When the polygon of the edited element is refused by \<open>checkPolygon\<close>,
  neither \<open>create\<close> nor \<open>saveEdited\<close> changes the list of children or dispatches
  an event. \<open>create\<close> catches an \<open>InvalidPolygonError\<close>, drops the edited element
  and returns normally; it throws any other error again. \<open>saveEdited\<close>, when it gets
  to the check (the edited element is not in the list or its polygon was moved), throws
  the error again after its \<open>catch\<close>.
\<close>

theorem rejected_commit_keeps_children:
  assumes "editedElement st = Some ed" and "checkPolygonValue (polygon ed) = Inl e"
  shows "create st
         = (if isInvalidPolygonError e then (None, st\<lparr>editedElement := None\<rparr>) else (Some e, st))
       \<and> saveEdited st
         = (let st2 = (if lastMousePosition st \<noteq> None
                       then setHovered (Some (elementId ed)) (st\<lparr>movedPointIndex := None\<rparr>)
                       else st\<lparr>movedPointIndex := None\<rparr>)
            in if childAt (parsedChildren st) (getChildIndex st (elementId ed)) \<noteq> None
                  \<and> \<not> updatedPolygon st
               then (None, st2)
               else (Some e, st2\<lparr>updatedPolygon := False\<rparr>))
       \<and> parsedChildren (snd (create st)) = parsedChildren st
       \<and> events (snd (create st)) = events st
       \<and> parsedChildren (snd (saveEdited st)) = parsedChildren st
       \<and> events (snd (saveEdited st)) = events st"
proof -
  have c: "create st
         = (if isInvalidPolygonError e then (None, st\<lparr>editedElement := None\<rparr>) else (Some e, st))"
    using assms by (simp add: create_def editElement_def)
  define st1 where "st1 = st\<lparr>movedPointIndex := None\<rparr>"
  define st2 where "st2 = (if lastMousePosition st \<noteq> None
                       then setHovered (Some (elementId ed)) st1 else st1)"
  have f: "parsedChildren st2 = parsedChildren st" "events st2 = events st"
    "updatedPolygon st2 = updatedPolygon st" "getChildIndex st2 = getChildIndex st"
    by (auto simp: st2_def st1_def setHovered_def getChildIndex_def)
  have e1: "editedElement st1 = Some ed" "lastMousePosition st1 = lastMousePosition st"
    using assms(1) by (simp_all add: st1_def)
  have s: "saveEdited st
         = (if childAt (parsedChildren st) (getChildIndex st (elementId ed)) \<noteq> None
                  \<and> \<not> updatedPolygon st
               then (None, st2)
               else (Some e, st2\<lparr>updatedPolygon := False\<rparr>))"
    unfolding saveEdited_def Let_def st1_def [symmetric]
    by (simp only: e1 option.case st2_def [symmetric] f assms(2) sum.case)
  have s': "saveEdited st
         = (let st2 = (if lastMousePosition st \<noteq> None
                       then setHovered (Some (elementId ed)) (st\<lparr>movedPointIndex := None\<rparr>)
                       else st\<lparr>movedPointIndex := None\<rparr>)
            in if childAt (parsedChildren st) (getChildIndex st (elementId ed)) \<noteq> None
                  \<and> \<not> updatedPolygon st
               then (None, st2)
               else (Some e, st2\<lparr>updatedPolygon := False\<rparr>))"
    unfolding s Let_def st2_def st1_def ..
  have p: "parsedChildren (snd (saveEdited st)) = parsedChildren st"
    "events (snd (saveEdited st)) = events st"
    unfolding s using f by simp_all
  have q: "parsedChildren (snd (create st)) = parsedChildren st"
    "events (snd (create st)) = events st"
    unfolding c by simp_all
  show ?thesis using c s' p q by simp
qed

theorem rejected_commit_keeps_children_witness:
  "create collapsedEdit = (None, collapsedEdit\<lparr>editedElement := None\<rparr>)
   \<and> parsedChildren (snd (create collapsedEdit)) = parsedChildren collapsedEdit
   \<and> parsedChildren (snd (saveEdited collapsedEdit)) = parsedChildren collapsedEdit
   \<and> events (snd (saveEdited collapsedEdit)) = events collapsedEdit"
proof -
  have h1: "editedElement collapsedEdit = Some \<lparr>polygon = Some segment, elementId = NumId 2\<rparr>"
    by (simp add: collapsedEdit_def)
  have h2: "checkPolygonValue (polygon \<lparr>polygon = Some segment, elementId = NumId 2\<rparr>)
            = Inl (InvalidPolygonError tooFewMessage)" by code_simp
  have i: "isInvalidPolygonError (InvalidPolygonError tooFewMessage)"
    by (simp add: isInvalidPolygonError_def)
  note t = rejected_commit_keeps_children [OF h1 h2]
  have a: "create collapsedEdit = (None, collapsedEdit\<lparr>editedElement := None\<rparr>)"
    using t [THEN conjunct1] i by (simp only: if_True)
  show ?thesis using a t [THEN conjunct2, THEN conjunct2] by blast
qed

theorem rejected_commit_keeps_children_counterexample:
  "fst (saveEdited collapsedEdit) = Some (InvalidPolygonError tooFewMessage)
   \<and> editedElement (snd (saveEdited collapsedEdit))
     = Some \<lparr>polygon = Some segment, elementId = NumId 2\<rparr>"
  by code_simp

section \<open>Properties of the drag gestures\<close>

text \<open>The bounding box of an element with an image of finite dimensions and no polygon,
  or a non-empty polygon of finite points, is a proper box.\<close>

lemma Math_min_pair: "Math_min [Num u, Num v] = Num (min u v)"
  by (auto simp: Math_min_def min2_def min_def)

lemma Math_max_pair: "Math_max [Num u, Num v] = Num (max u v)"
  by (auto simp: Math_max_def max2_def max_def)

lemma clamped_span:
  assumes "list_all Number_isFinite cs" and "cs \<noteq> []"
  shows "\<exists>lo hi. Math_min [Num w, Math_max [Math_min cs, Num 0]] = Num lo
             \<and> Math_min [Num w, Math_max [Math_max cs, Num 0]] = Num hi \<and> lo \<le> hi"
proof -
  let ?S = "theRat ` set cs"
  have mn: "Math_min cs = Num (Min ?S)" and mx: "Math_max cs = Num (Max ?S)"
    using assms by (simp_all add: Math_min_finite Math_max_finite)
  have "Min ?S \<le> Max ?S" using assms(2) by (intro Min.coboundedI) auto
  then have "min w (max (Min ?S) 0) \<le> min w (max (Max ?S) 0)" by (auto simp: min_def max_def)
  then show ?thesis by (simp add: mn mx Math_min_pair Math_max_pair)
qed

lemma boundingBox_proper:
  assumes "boundingBox el True = Inr b" and "image el = Some img"
    and "Number_isFinite (width img)" and "Number_isFinite (height img)"
    and "case polygon el of None \<Rightarrow> True | Some p \<Rightarrow> p \<noteq> [] \<and> list_all finitePoint p"
  shows "properBox b"
proof -
  obtain w h where wh: "width img = Num w" "height img = Num h"
    using assms(3,4) by (auto simp: isFinite_iff)
  define xCoords where
    "xCoords = (case polygon el of None \<Rightarrow> [Num 0, width img] | Some p \<Rightarrow> map fst p)"
  define yCoords where
    "yCoords = (case polygon el of None \<Rightarrow> [Num 0, height img] | Some p \<Rightarrow> map snd p)"
  have fx: "list_all Number_isFinite xCoords" "xCoords \<noteq> []"
    and fy: "list_all Number_isFinite yCoords" "yCoords \<noteq> []"
    using assms(5) wh
    by (auto simp: xCoords_def yCoords_def list_all_iff finitePoint_def split: option.splits)
  from clamped_span [OF fx, of w] obtain lx hx where
    x: "Math_min [Num w, Math_max [Math_min xCoords, Num 0]] = Num lx"
       "Math_min [Num w, Math_max [Math_max xCoords, Num 0]] = Num hx" "lx \<le> hx" by blast
  from clamped_span [OF fy, of h] obtain ly hy where
    y: "Math_min [Num h, Math_max [Math_min yCoords, Num 0]] = Num ly"
       "Math_min [Num h, Math_max [Math_max yCoords, Num 0]] = Num hy" "ly \<le> hy" by blast
  have "b = \<lparr>box_x = Num lx, box_y = Num ly,
             box_width = jsSub (Num hx) (Num lx), box_height = jsSub (Num hy) (Num ly)\<rparr>"
    using assms(1,2) wh x(1,2) y(1,2)
    by (auto simp: boundingBox_def Let_def xCoords_def yCoords_def
        split: option.splits if_splits)
  then show ?thesis using x(3) y(3) by (simp add: properBox_def jsSub_def jsGreaterEq_def)
qed

lemma limit_within:
  assumes "Number_isFinite lo" and "Number_isFinite len" and "jsGreaterEq len (Num 0)"
    and "Number_isFinite v"
  shows "Number_isFinite (limit lo len v) \<and> jsLessEq lo (limit lo len v)
       \<and> jsLessEq (limit lo len v) (jsAdd lo len)"
proof -
  obtain a w x where n: "lo = Num a" "len = Num w" "v = Num x"
    using assms(1,2,4) by (auto simp: isFinite_iff)
  have "0 \<le> w" using assms(3) n by (simp add: jsGreaterEq_def)
  then show ?thesis
    by (auto simp: n limit_def jsLessEq_def jsGreater_def)
qed

lemma limitPoint_within:
  assumes "properBox b" and "finitePoint pos"
  shows "withinBox b (limitPoint b pos)" and "finitePoint (limitPoint b pos)"
  using assms limit_within [of "box_x b" "box_width b" "fst pos"]
    limit_within [of "box_y b" "box_height b" "snd pos"]
  by (simp_all add: properBox_def finitePoint_def withinBox_def limitPoint_def)

lemma limit_fixed:
  assumes "Number_isFinite lo" and "Number_isFinite len"
  shows "jsStrictEq v (limit lo len v) \<longleftrightarrow> (jsLessEq lo v \<and> jsLessEq v (jsAdd lo len))"
proof -
  obtain a w where n: "lo = Num a" "len = Num w"
    using assms by (auto simp: isFinite_iff)
  show ?thesis
    by (cases v) (auto simp: n limit_def jsLessEq_def jsGreater_def jsStrictEq_def)
qed

lemma limitPoint_fixed:
  assumes "properBox b"
  shows "pointsEqual q (limitPoint b q) \<longleftrightarrow> withinBox b q"
  using assms limit_fixed [of "box_x b" "box_width b" "fst q"]
    limit_fixed [of "box_y b" "box_height b" "snd q"]
  by (auto simp: properBox_def pointsEqual_def limitPoint_def withinBox_def)

lemma movePoint_result:
  assumes "originalBoundingBox st = Inr b"
    and "editedElement st = Some ed" and "polygon ed = Some p"
    and "movedPointIndex st = Some i" and "i < length p"
  shows "movePoint pos st
         = Inr (if pointsEqual (p ! i) (limitPoint b pos) then None
                else Some (if i = 0
                           then (p[0 := limitPoint b pos])[length p - 1 := limitPoint b pos]
                           else p[i := limitPoint b pos]))"
  using assms by (simp add: movePoint_def elementLimits_def Let_def)

lemma movePolygon_result:
  assumes "originalBoundingBox st = Inr b" and "properBox b"
    and "editedElement st = Some ed" and "polygon ed = Some p"
    and "lastMousePosition st = Some l"
  shows "movePolygon pos st
         = Inr (if pointsEqual l pos then None
                else if list_all (withinBox b)
                          (shiftPolygon p (jsSub (fst pos) (fst l), jsSub (snd pos) (snd l)))
                then Some (shiftPolygon p (jsSub (fst pos) (fst l), jsSub (snd pos) (snd l)))
                else None)"
proof -
  have eq: "list_all (\<lambda>q. pointsEqual q (limitPoint b q)) qs = list_all (withinBox b) qs" for qs
    by (simp add: limitPoint_fixed [OF assms(2)])
  show ?thesis
    using assms(1,3,4,5) by (auto simp: movePolygon_def Let_def eq)
qed


lemma within_update:
  "list_all (withinBox b) p \<Longrightarrow> withinBox b q \<Longrightarrow> list_all (withinBox b) (p[i := q])"
  by (auto simp: list_all_iff dest!: set_update_subset_insert [THEN subsetD])

text \<open>
  C7. Let the box of the element be proper, let every vertex of the edited polygon be
  within it, and let a move arrive at a finite position while the mouse button is down.
  The position is brought into the box. While a vertex is dragged (its index within the
  polygon), \<open>movePoint\<close> puts the limited position at that index, and also at the
  last index when the index is 0, or returns nothing when the vertex is already there.
  While the polygon is dragged, \<open>movePolygon\<close> returns the polygon shifted as a whole
  when every shifted vertex is within the box, and nothing otherwise. In each case
  \<open>edit\<close> returns normally with an edited polygon of the same number of vertices, all
  within the box.
\<close>

theorem drag_keeps_vertices_within_box:
  assumes "originalBoundingBox st = Inr b" and "properBox b"
    and "editedElement st = Some ed" and "polygon ed = Some p"
    and "list_all (withinBox b) p"
    and "finitePoint pos" and "mouseDown st"
    and "case movedPointIndex st of None \<Rightarrow> True | Some i \<Rightarrow> i < length p"
  shows "withinBox b (limitPoint b pos)
       \<and> (case movedPointIndex st of
            Some i \<Rightarrow>
              movePoint pos st
              = Inr (if pointsEqual (p ! i) (limitPoint b pos) then None
                     else Some (if i = 0
                                then (p[0 := limitPoint b pos])
                                       [length p - 1 := limitPoint b pos]
                                else p[i := limitPoint b pos]))
          | None \<Rightarrow>
              (case lastMousePosition st of
                 None \<Rightarrow> True
               | Some l \<Rightarrow>
                   movePolygon pos st
                   = Inr (if pointsEqual l pos then None
                          else if list_all (withinBox b)
                                    (shiftPolygon p
                                       (jsSub (fst pos) (fst l), jsSub (snd pos) (snd l)))
                          then Some (shiftPolygon p
                                       (jsSub (fst pos) (fst l), jsSub (snd pos) (snd l)))
                          else None)))
       \<and> (\<exists>p'. edit pos (Some Move) st
                 = (None, st\<lparr>updatedPolygon := True,
                             editedElement := Some (ed\<lparr>polygon := Some p'\<rparr>)\<rparr>)
               \<and> length p' = length p \<and> list_all (withinBox b) p')"
proof -
  let ?L = "limitPoint b pos"
  have L: "withinBox b ?L" by (rule limitPoint_within(1) [OF assms(2,6)])
  have same: "ed\<lparr>polygon := Some p\<rparr> = ed" using assms(4) by simp
  have keep: "\<exists>p'. (None, st\<lparr>updatedPolygon := True\<rparr>)
                 = (None, st\<lparr>updatedPolygon := True,
                             editedElement := Some (ed\<lparr>polygon := Some p'\<rparr>)\<rparr>)
               \<and> length p' = length p \<and> list_all (withinBox b) p'"
    using assms(3,5) same by (intro exI [of _ p]) simp
  have put: "\<exists>p'. editElement (Some (ed\<lparr>polygon := Some q\<rparr>)) (st\<lparr>updatedPolygon := True\<rparr>)
                 = (None, st\<lparr>updatedPolygon := True,
                             editedElement := Some (ed\<lparr>polygon := Some p'\<rparr>)\<rparr>)
               \<and> length p' = length p \<and> list_all (withinBox b) p'"
    if "length q = length p" "list_all (withinBox b) q" for q
    using that by (intro exI [of _ q]) (simp add: editElement_def)
  show ?thesis
  proof (cases "movedPointIndex st")
    case (Some i)
    then have i: "i < length p" using assms(8) by simp
    note mp = movePoint_result [OF assms(1,3,4) Some i, of pos]
    have e: "edit pos (Some Move) st
             = (case movePoint pos st of
                  Inl e \<Rightarrow> (Some e, st)
                | Inr moved \<Rightarrow>
                    (case moved of
                       None \<Rightarrow> (None, st\<lparr>updatedPolygon := True\<rparr>)
                     | Some q \<Rightarrow> editElement (Some (ed\<lparr>polygon := Some q\<rparr>))
                                   (st\<lparr>updatedPolygon := True\<rparr>)))"
      using assms(3,7) Some by (simp add: edit_def Let_def split: sum.splits option.splits)
    have inv: "\<exists>p'. edit pos (Some Move) st
                 = (None, st\<lparr>updatedPolygon := True,
                             editedElement := Some (ed\<lparr>polygon := Some p'\<rparr>)\<rparr>)
               \<and> length p' = length p \<and> list_all (withinBox b) p'"
    proof (cases "pointsEqual (p ! i) ?L")
      case True
      then show ?thesis unfolding e mp using keep by simp
    next
      case False
      let ?q = "if i = 0 then (p[0 := ?L])[length p - 1 := ?L] else p[i := ?L]"
      have "length ?q = length p" by simp
      moreover have "list_all (withinBox b) ?q"
        using assms(5) L by (simp add: within_update)
      ultimately show ?thesis unfolding e mp using False put [of ?q] by simp
    qed
    show ?thesis using L mp inv Some by simp
  next
    case None
    show ?thesis
    proof (cases "lastMousePosition st")
      case n: None
      have "edit pos (Some Move) st = (None, st\<lparr>updatedPolygon := True\<rparr>)"
        using assms(3,7) None n by (simp add: edit_def Let_def)
      then show ?thesis using L None n keep by simp
    next
      case (Some l)
      let ?s = "shiftPolygon p (jsSub (fst pos) (fst l), jsSub (snd pos) (snd l))"
      note mp = movePolygon_result [OF assms(1,2,3,4) Some, of pos]
      have e: "edit pos (Some Move) st
             = (case movePolygon pos st of
                  Inl e \<Rightarrow> (Some e, st)
                | Inr moved \<Rightarrow>
                    (case moved of
                       None \<Rightarrow> (None, st\<lparr>updatedPolygon := True\<rparr>)
                     | Some q \<Rightarrow> editElement (Some (ed\<lparr>polygon := Some q\<rparr>))
                                   (st\<lparr>updatedPolygon := True\<rparr>)))"
        using assms(3,7) None Some by (simp add: edit_def Let_def split: sum.splits option.splits)
      have inv: "\<exists>p'. edit pos (Some Move) st
                 = (None, st\<lparr>updatedPolygon := True,
                             editedElement := Some (ed\<lparr>polygon := Some p'\<rparr>)\<rparr>)
               \<and> length p' = length p \<and> list_all (withinBox b) p'"
      proof (cases "\<not> pointsEqual l pos \<and> list_all (withinBox b) ?s")
        case True
        have "length ?s = length p" by (simp add: shiftPolygon_def)
        then show ?thesis unfolding e mp using True put [of ?s] by simp
      next
        case False
        then show ?thesis unfolding e mp using keep by auto
      qed
      show ?thesis using L mp inv None Some by simp
    qed
  qed
qed


theorem drag_keeps_vertices_within_box_witness:
  "originalBoundingBox vertexDrag
     = Inr \<lparr>box_x = Num 0, box_y = Num 0, box_width = Num 100, box_height = Num 100\<rparr>
   \<and> withinBox \<lparr>box_x = Num 0, box_y = Num 0, box_width = Num 100, box_height = Num 100\<rparr>
        (Num 50, Num 100)
   \<and> movePoint (Num 50, Num 200) vertexDrag
     = Inr (Some [(Num 50, Num 100), (Num 7, Num 2), (Num 7, Num 7), (Num 2, Num 7), (Num 50, Num 100)])"
proof -
  let ?b = "\<lparr>box_x = Num 0, box_y = Num 0, box_width = Num 100, box_height = Num 100\<rparr>"
  let ?ed = "\<lparr>polygon = Some (square 2), elementId = NumId 2\<rparr>"
  have h1: "originalBoundingBox vertexDrag = Inr ?b" by code_simp
  have h2: "properBox ?b" by code_simp
  have h3: "editedElement vertexDrag = Some ?ed" by (simp add: vertexDrag_def squareRegion_def)
  have h4: "polygon ?ed = Some (square 2)" by simp
  have h5: "list_all (withinBox ?b) (square 2)" by code_simp
  have h6: "finitePoint (Num 50, Num 200)" by (simp add: finitePoint_def)
  have h7: "mouseDown vertexDrag" by (simp add: vertexDrag_def)
  have h8: "case movedPointIndex vertexDrag of None \<Rightarrow> True | Some i \<Rightarrow> i < length (square 2)"
    by (simp add: vertexDrag_def square_def)
  have m: "movedPointIndex vertexDrag = Some 0" by (simp add: vertexDrag_def)
  have l: "limitPoint ?b (Num 50, Num 200) = (Num 50, Num 100)" by code_simp
  have ne: "\<not> pointsEqual (square 2 ! 0) (Num 50, Num 100)" by code_simp
  have sq: "((square 2)[0 := (Num 50, Num 100)])[length (square 2) - 1 := (Num 50, Num 100)]
            = [(Num 50, Num 100), (Num 7, Num 2), (Num 7, Num 7), (Num 2, Num 7), (Num 50, Num 100)]"
    by (simp add: square_def)
  note t = drag_keeps_vertices_within_box [OF h1 h2 h3 h4 h5 h6 h7 h8]
  have a: "withinBox ?b (Num 50, Num 100)" using t [THEN conjunct1] by (simp only: l)
  have c: "movePoint (Num 50, Num 200) vertexDrag
     = Inr (Some [(Num 50, Num 100), (Num 7, Num 2), (Num 7, Num 7), (Num 2, Num 7), (Num 50, Num 100)])"
    using t [THEN conjunct2, THEN conjunct1] ne
    by (simp only: m option.case l if_False if_True sq refl)
  show ?thesis using h1 a c by blast
qed

end
